theory Spec2Isabelle
  imports Complex_Main "HOL-Library.Multiset" "HOL-Library.Sublist" "HOL-Library.Product_Lexorder"
begin

section \<open>Python library functions used by the two AI modules\<close>

text \<open>
  Python ints are \<open>int\<close> or \<open>nat\<close>, and the values of Python floats are real
  numbers. The sections on \<open>predictor.py\<close> and \<open>route_optimizer.py\<close> compute with
  them in exact arithmetic; a later section takes the arithmetic as a parameter, for the
  properties that depend on how binary64 rounds. \<open>round(x, n)\<close> on a float rounds its
  value to \<open>n\<close> decimals, a tie going to the even neighbour.
\<close>

definition round_half_even :: "real \<Rightarrow> int" where
  "round_half_even x =
     (let f = \<lfloor>x\<rfloor>; d = x - of_int f
      in if d < 1 / 2 then f else if 1 / 2 < d then f + 1 else if even f then f else f + 1)"

definition py_round :: "real \<Rightarrow> nat \<Rightarrow> real" where
  "py_round x n = of_int (round_half_even (x * 10 ^ n)) / 10 ^ n"

text \<open>
  A slice \<open>xs[:n]\<close>: a negative bound counts from the end of the list.
\<close>

definition py_slice_to :: "'a list \<Rightarrow> int \<Rightarrow> 'a list" where
  "py_slice_to xs n = (if 0 \<le> n then take (nat n) xs else take (length xs - nat (- n)) xs)"

text \<open>
  Truthiness of a nullable numeric column: \<open>None\<close> and zero are both falsy.
\<close>

definition truthy :: "real option \<Rightarrow> bool" where
  "truthy v = (case v of None \<Rightarrow> False | Some x \<Rightarrow> x \<noteq> 0)"

datatype py_error = TypeError | ValueError

section \<open>The rows read from the database\<close>

text \<open>
  A row of \<open>sensor_logs\<close> as the query of \<open>get_fill_rate\<close> selects it; the timestamp
  is in seconds. A \<open>NULL\<close> level arrives as \<open>None\<close>.
\<close>

record sensor_log =
  log_waste_level :: "real option"
  log_timestamp :: real

text \<open>
  A row of \<open>bins\<close>. The coordinates are nullable; the waste level is a number, as
  the conversions \<open>float(bin_data['waste_level'])\<close> expect. A numeric column holds the
  value of the float the code converts it to.
\<close>

record bin_row =
  bin_id :: nat
  bin_code :: string
  location :: string
  zone :: string
  latitude :: "real option"
  longitude :: "real option"
  waste_level :: real
  status :: string

text \<open>
  The database as one call sees it: the \<open>bins\<close> table in the order \<open>get_all_bins\<close>
  returns it, and for each bin id the result of the sensor-log query of the last seven
  days in ascending time order (\<open>None\<close> when the query fails, which
  \<open>get_fill_rate\<close> tests for). \<open>get_bin_by_id\<close> returns the first row with the id,
  or \<open>None\<close>.
\<close>

record database =
  bins_table :: "bin_row list"
  sensor_logs :: "nat \<Rightarrow> sensor_log list option"

definition get_all_bins :: "database \<Rightarrow> bin_row list" where
  "get_all_bins db = bins_table db"

definition get_bin_by_id :: "database \<Rightarrow> nat \<Rightarrow> bin_row option" where
  "get_bin_by_id db i = find (\<lambda>b. bin_id b = i) (bins_table db)"

section \<open>predictor.py\<close>

subsection \<open>The linear fit\<close>

text \<open>
  \<open>LinearRegression().fit(X, y)\<close> with one feature centres both columns and solves the
  least-squares problem, taking the solution of least norm: in exact arithmetic the
  coefficient is \<open>Sxy / Sxx\<close>, and \<open>0\<close> when all abscissae coincide, and the intercept
  is \<open>mean y - coef * mean x\<close>. The binary64 solver returns these up to rounding.
\<close>

definition mean :: "real list \<Rightarrow> real" where
  "mean xs = sum_list xs / real (length xs)"

definition linreg_sxx :: "real list \<Rightarrow> real" where
  "linreg_sxx xs = (\<Sum>x\<leftarrow>xs. (x - mean xs) * (x - mean xs))"

definition linreg_sxy :: "real list \<Rightarrow> real list \<Rightarrow> real" where
  "linreg_sxy xs ys = (\<Sum>(x, y)\<leftarrow>zip xs ys. (x - mean xs) * (y - mean ys))"

definition linreg_coef :: "real list \<Rightarrow> real list \<Rightarrow> real" where
  "linreg_coef xs ys =
     (if linreg_sxx xs = 0 then 0 else linreg_sxy xs ys / linreg_sxx xs)"



subsection \<open>get_fill_rate\<close>

text \<open>
  The loop of the \<open>try\<close> block: hours since the first log, and the level of each log.
  \<open>float(None)\<close> raises \<open>TypeError\<close>.
\<close>

fun regression_inputs :: "real \<Rightarrow> sensor_log list \<Rightarrow> py_error + (real list \<times> real list)" where
  "regression_inputs base_time [] = Inr ([], [])"
| "regression_inputs base_time (l # ls) =
     (case log_waste_level l of
        None \<Rightarrow> Inl TypeError
      | Some w \<Rightarrow>
          (case regression_inputs base_time ls of
             Inl e \<Rightarrow> Inl e
           | Inr (timestamps, levels) \<Rightarrow>
               Inr ((log_timestamp l - base_time) / 3600 # timestamps, w # levels)))"

text \<open>
  The body of the \<open>try\<close> block up to \<open>fill_rate = model.coef_[0]\<close>. It runs on
  at least two logs, so \<open>logs[0]\<close> exists.
\<close>

definition fitted_slope :: "sensor_log list \<Rightarrow> py_error + real" where
  "fitted_slope logs =
     (case regression_inputs (log_timestamp (hd logs)) logs of
        Inl e \<Rightarrow> Inl e
      | Inr (timestamps, levels) \<Rightarrow> Inr (linreg_coef timestamps levels))"

definition fill_rate_of_logs :: "sensor_log list option \<Rightarrow> real" where
  "fill_rate_of_logs logs =
     (case logs of
        None \<Rightarrow> 2
      | Some ls \<Rightarrow>
          if ls = [] \<or> length ls < 2 then 2
          else (case fitted_slope ls of
                  Inl e \<Rightarrow> 2
                | Inr fill_rate \<Rightarrow>
                    if fill_rate \<le> 0 then 2
                    else if 10 < fill_rate then 10
                    else fill_rate))"

definition get_fill_rate :: "database \<Rightarrow> nat \<Rightarrow> real" where
  "get_fill_rate db b = fill_rate_of_logs (sensor_logs db b)"

subsection \<open>predict_time_to_full\<close>

definition predict_time_to_full :: "nat \<Rightarrow> real \<Rightarrow> real \<Rightarrow> real" where
  "predict_time_to_full b current_level fill_rate =
     (if 100 \<le> current_level then 0
      else (let fill_rate' = (if fill_rate \<le> 0 then 2 else fill_rate);
                remaining_capacity = 100 - current_level
            in remaining_capacity / fill_rate'))"

subsection \<open>predict_bins_needing_collection\<close>

datatype priority = Critical | High | Medium | Low

fun priority_order :: "priority \<Rightarrow> nat" where
  "priority_order Critical = 0"
| "priority_order High = 1"
| "priority_order Medium = 2"
| "priority_order Low = 3"

record prediction =
  p_bin_id :: nat
  p_bin_code :: string
  p_location :: string
  p_zone :: string
  p_current_level :: real
  p_fill_rate :: real
  p_hours_to_full :: real
  p_predicted_level_24h :: real
  p_priority :: priority
  p_needs_collection :: bool
  p_latitude :: "real option"
  p_longitude :: "real option"

text \<open>The priority calculation: \<open>low\<close> unless one of the three tests fires, in this order.\<close>

definition priority_of :: "real \<Rightarrow> real \<Rightarrow> real \<Rightarrow> priority" where
  "priority_of current_level hours_to_full threshold_hours =
     (if 90 \<le> current_level then Critical
      else if 80 \<le> current_level then High
      else if hours_to_full \<le> threshold_hours then Medium
      else Low)"

definition float_or_none :: "real option \<Rightarrow> real option" where
  "float_or_none v = (if truthy v then v else None)"

text \<open>The dictionary appended for one bin of the loop.\<close>

definition predict_bin :: "database \<Rightarrow> real \<Rightarrow> bin_row \<Rightarrow> prediction" where
  "predict_bin db threshold_hours bin_data =
     (let current_level = waste_level bin_data;
          fill_rate = get_fill_rate db (bin_id bin_data);
          hours_to_full = predict_time_to_full (bin_id bin_data) current_level fill_rate;
          predicted_level = current_level + fill_rate * threshold_hours;
          predicted_level' = (if 100 < predicted_level then 100 else predicted_level)
      in \<lparr> p_bin_id = bin_id bin_data,
           p_bin_code = bin_code bin_data,
           p_location = location bin_data,
           p_zone = zone bin_data,
           p_current_level = py_round current_level 2,
           p_fill_rate = py_round fill_rate 2,
           p_hours_to_full = py_round hours_to_full 1,
           p_predicted_level_24h = py_round predicted_level' 2,
           p_priority = priority_of current_level hours_to_full threshold_hours,
           p_needs_collection = (hours_to_full \<le> threshold_hours \<or> 80 \<le> current_level),
           p_latitude = float_or_none (latitude bin_data),
           p_longitude = float_or_none (longitude bin_data) \<rparr>)"

text \<open>The test under which the loop appends the bin.\<close>

definition needs_attention :: "database \<Rightarrow> real \<Rightarrow> bin_row \<Rightarrow> bool" where
  "needs_attention db threshold_hours bin_data =
     (let current_level = waste_level bin_data;
          hours_to_full = predict_time_to_full (bin_id bin_data) current_level
                            (get_fill_rate db (bin_id bin_data))
      in 70 \<le> current_level \<or> hours_to_full \<le> threshold_hours)"

text \<open>The list \<open>predictions\<close> when the loop ends, before it is sorted.\<close>

fun collect_predictions :: "database \<Rightarrow> real \<Rightarrow> bin_row list \<Rightarrow> prediction list" where
  "collect_predictions db threshold_hours [] = []"
| "collect_predictions db threshold_hours (bin_data # rest) =
     (if status bin_data \<noteq> ''active'' then collect_predictions db threshold_hours rest
      else if needs_attention db threshold_hours bin_data
           then predict_bin db threshold_hours bin_data # collect_predictions db threshold_hours rest
           else collect_predictions db threshold_hours rest)"

definition sort_key_of :: "prediction \<Rightarrow> nat \<times> real" where
  "sort_key_of x = (priority_order (p_priority x), - p_current_level x)"

definition predict_bins_needing_collection :: "database \<Rightarrow> real \<Rightarrow> prediction list" where
  "predict_bins_needing_collection db threshold_hours =
     sort_key sort_key_of (collect_predictions db threshold_hours (get_all_bins db))"

subsection \<open>get_optimal_collection_bins\<close>

definition get_optimal_collection_bins :: "database \<Rightarrow> int \<Rightarrow> prediction list" where
  "get_optimal_collection_bins db max_bins =
     (let predictions = predict_bins_needing_collection db 24;
          bins_to_collect = filter p_needs_collection predictions
      in py_slice_to bins_to_collect max_bins)"

section \<open>route_optimizer.py\<close>

subsection \<open>calculate_distance\<close>

text \<open>
  \<open>math.radians\<close> and \<open>math.atan2\<close> on real numbers, and the haversine formula in
  exact arithmetic, where the term \<open>a\<close> stays within 0 and 1 and \<open>math.sqrt\<close> has
  nothing to raise on.
\<close>

definition radians :: "real \<Rightarrow> real" where
  "radians x = x * pi / 180"

definition atan2 :: "real \<Rightarrow> real \<Rightarrow> real" where
  "atan2 y x =
     (if 0 < x then arctan (y / x)
      else if x < 0 then (if 0 \<le> y then arctan (y / x) + pi else arctan (y / x) - pi)
      else if 0 < y then pi / 2
      else if y < 0 then - (pi / 2)
      else 0)"

text \<open>The quantity \<open>a\<close> of the haversine formula.\<close>

definition haversine_a :: "real \<Rightarrow> real \<Rightarrow> real \<Rightarrow> real \<Rightarrow> real" where
  "haversine_a lat1 lon1 lat2 lon2 =
     (let lat1_rad = radians lat1; lon1_rad = radians lon1;
          lat2_rad = radians lat2; lon2_rad = radians lon2;
          dlat = lat2_rad - lat1_rad;
          dlon = lon2_rad - lon1_rad
      in (sin (dlat / 2))\<^sup>2 + cos lat1_rad * cos lat2_rad * (sin (dlon / 2))\<^sup>2)"

definition calculate_distance :: "real \<Rightarrow> real \<Rightarrow> real \<Rightarrow> real \<Rightarrow> real" where
  "calculate_distance lat1 lon1 lat2 lon2 =
     (let R = 6371;
          a = haversine_a lat1 lon1 lat2 lon2;
          c = 2 * atan2 (sqrt a) (sqrt (1 - a))
      in R * c)"

subsection \<open>get_bin_priority_score\<close>

definition get_bin_priority_score :: "real \<Rightarrow> int" where
  "get_bin_priority_score w =
     (if 90 \<le> w then 100
      else if 80 \<le> w then 80
      else if 70 \<le> w then 60
      else if 60 \<le> w then 40
      else 20)"

subsection \<open>optimize_route\<close>

text \<open>The dictionary built for a bin that passes the coordinate test.\<close>

record route_bin =
  rb_bin_id :: nat
  rb_bin_code :: string
  rb_location :: string
  rb_latitude :: real
  rb_longitude :: real
  rb_waste_level :: real
  rb_priority_score :: int

text \<open>A stop of the returned route.\<close>

record route_stop =
  s_sequence :: nat
  s_bin_id :: nat
  s_bin_code :: string
  s_location :: string
  s_latitude :: real
  s_longitude :: real
  s_waste_level :: real
  s_distance_from_previous :: real

text \<open>
  The returned dictionary. The two early returns have neither \<open>total_bins\<close> nor
  \<open>average_waste_level\<close>: an absent key is \<open>None\<close>.
\<close>

record route_result =
  r_bins :: "route_stop list"
  r_total_bins :: "nat option"
  r_total_distance :: real
  r_optimization_method :: string
  r_average_waste_level :: "real option"

text \<open>
  The test \<open>bin_data['latitude'] and bin_data['longitude']\<close> and the dictionary
  appended when it holds.
\<close>

definition route_bin_of :: "bin_row \<Rightarrow> route_bin option" where
  "route_bin_of bin_data =
     (case latitude bin_data of
        None \<Rightarrow> None
      | Some la \<Rightarrow>
          (case longitude bin_data of
             None \<Rightarrow> None
           | Some lo \<Rightarrow>
               if la \<noteq> 0 \<and> lo \<noteq> 0
               then Some \<lparr> rb_bin_id = bin_id bin_data,
                           rb_bin_code = bin_code bin_data,
                           rb_location = location bin_data,
                           rb_latitude = la,
                           rb_longitude = lo,
                           rb_waste_level = waste_level bin_data,
                           rb_priority_score = get_bin_priority_score (waste_level bin_data) \<rparr>
               else None))"

text \<open>The first loop: look every id up, keep the bins that pass the test.\<close>

fun collect_bins :: "database \<Rightarrow> nat list \<Rightarrow> route_bin list" where
  "collect_bins db [] = []"
| "collect_bins db (i # bin_ids) =
     (case get_bin_by_id db i of
        None \<Rightarrow> collect_bins db bin_ids
      | Some bin_data \<Rightarrow>
          (case route_bin_of bin_data of
             None \<Rightarrow> collect_bins db bin_ids
           | Some b \<Rightarrow> b # collect_bins db bin_ids))"

text \<open>
  \<open>list.sort(key=f, reverse=True)\<close>: the list is reversed, sorted by a stable ascending
  sort and reversed again, which keeps elements of equal key in their order.
\<close>

definition py_sort_reverse :: "('a \<Rightarrow> 'k::linorder) \<Rightarrow> 'a list \<Rightarrow> 'a list" where
  "py_sort_reverse f xs = rev (sort_key f (rev xs))"

text \<open>
  The inner \<open>for\<close> loop. The running best is \<open>None\<close> while \<open>best_bin\<close> is
  \<open>None\<close> and \<open>best_score\<close> is minus infinity, which every score exceeds; afterwards it
  holds \<open>best_bin\<close>, \<open>best_score\<close> and \<open>best_distance\<close>.
\<close>

fun find_best :: "real \<times> real \<Rightarrow> route_bin list \<Rightarrow> (route_bin \<times> real \<times> real) option
                  \<Rightarrow> (route_bin \<times> real \<times> real) option" where
  "find_best cur [] best = best"
| "find_best cur (bin_data # rest) best =
     (let distance = calculate_distance (fst cur) (snd cur)
                       (rb_latitude bin_data) (rb_longitude bin_data);
          distance_weight = 5;
          score = real_of_int (rb_priority_score bin_data) - distance * distance_weight
      in find_best cur rest
           (case best of
              None \<Rightarrow> Some (bin_data, score, distance)
            | Some (best_bin, best_score, best_distance) \<Rightarrow>
                if best_score < score then Some (bin_data, score, distance) else best))"

definition make_stop :: "nat \<Rightarrow> route_bin \<Rightarrow> real \<Rightarrow> route_stop" where
  "make_stop n best_bin best_distance =
     \<lparr> s_sequence = n,
       s_bin_id = rb_bin_id best_bin,
       s_bin_code = rb_bin_code best_bin,
       s_location = rb_location best_bin,
       s_latitude = rb_latitude best_bin,
       s_longitude = rb_longitude best_bin,
       s_waste_level = rb_waste_level best_bin,
       s_distance_from_previous = py_round best_distance 2 \<rparr>"

text \<open>
  The \<open>while remaining_bins\<close> loop on the state (current position, remaining bins,
  route so far, total distance). When the inner loop leaves \<open>best_bin\<close> unset, nothing
  changes and the loop goes round again.
\<close>

function nearest_neighbor_loop ::
  "real \<times> real \<Rightarrow> route_bin list \<Rightarrow> route_stop list \<Rightarrow> real \<Rightarrow> route_stop list \<times> real" where
  "nearest_neighbor_loop cur remaining_bins optimized_route total_distance =
     (if remaining_bins = [] then (optimized_route, total_distance)
      else (case find_best cur remaining_bins None of
              None \<Rightarrow> nearest_neighbor_loop cur remaining_bins optimized_route total_distance
            | Some (best_bin, best_score, best_distance) \<Rightarrow>
                nearest_neighbor_loop (rb_latitude best_bin, rb_longitude best_bin)
                  (remove1 best_bin remaining_bins)
                  (optimized_route @ [make_stop (length optimized_route + 1) best_bin best_distance])
                  (total_distance + best_distance)))"
  by pat_completeness auto

definition empty_route :: route_result where
  "empty_route =
     \<lparr> r_bins = [], r_total_bins = None, r_total_distance = 0,
       r_optimization_method = ''nearest_neighbor'', r_average_waste_level = None \<rparr>"

text \<open>
  The bins in the order the main loop scans them, and the position it starts from: with
  no start location the list is first sorted by descending priority score and the
  position is that of its head (the list is not empty there).
\<close>

definition starting_point :: "route_bin list \<Rightarrow> (real \<times> real) option \<Rightarrow> route_bin list \<times> (real \<times> real)" where
  "starting_point bins start_location =
     (case start_location of
        Some (current_lat, current_lon) \<Rightarrow> (bins, (current_lat, current_lon))
      | None \<Rightarrow>
          (let bins' = py_sort_reverse rb_priority_score bins
           in (bins', (rb_latitude (hd bins'), rb_longitude (hd bins')))))"

definition optimize_route :: "database \<Rightarrow> nat list \<Rightarrow> (real \<times> real) option \<Rightarrow> route_result" where
  "optimize_route db bin_ids start_location =
     (if bin_ids = [] then empty_route
      else (let bins = collect_bins db bin_ids
            in if bins = [] then empty_route
               else (let (bins', cur) = starting_point bins start_location;
                         (optimized_route, total_distance) = nearest_neighbor_loop cur bins' [] 0
                     in \<lparr> r_bins = optimized_route,
                          r_total_bins = Some (length optimized_route),
                          r_total_distance = py_round total_distance 2,
                          r_optimization_method = ''nearest_neighbor_priority_weighted'',
                          r_average_waste_level =
                            Some (if optimized_route \<noteq> []
                                  then py_round (sum_list (map s_waste_level optimized_route)
                                                 / real (length optimized_route)) 2
                                  else 0) \<rparr>)))"

section \<open>Quantities the properties are stated with\<close>

text \<open>
  The distance and the weighted score the inner loop computes for a bin from the current
  position.
\<close>

definition bin_distance :: "real \<times> real \<Rightarrow> route_bin \<Rightarrow> real" where
  "bin_distance cur b = calculate_distance (fst cur) (snd cur) (rb_latitude b) (rb_longitude b)"

definition weighted_score :: "real \<times> real \<Rightarrow> route_bin \<Rightarrow> real" where
  "weighted_score cur b = real_of_int (rb_priority_score b) - bin_distance cur b * 5"

text \<open>
  The unrounded hop distances along a stop sequence that is entered from \<open>cur\<close>.
\<close>

fun hop_distances :: "real \<times> real \<Rightarrow> route_stop list \<Rightarrow> real list" where
  "hop_distances cur [] = []"
| "hop_distances cur (s # ss) =
     calculate_distance (fst cur) (snd cur) (s_latitude s) (s_longitude s)
       # hop_distances (s_latitude s, s_longitude s) ss"

text \<open>The fields a stop copies from its bin.\<close>

definition bin_fields :: "route_bin \<Rightarrow> nat \<times> string \<times> string \<times> real \<times> real \<times> real" where
  "bin_fields b = (rb_bin_id b, rb_bin_code b, rb_location b, rb_latitude b, rb_longitude b, rb_waste_level b)"

definition stop_fields :: "route_stop \<Rightarrow> nat \<times> string \<times> string \<times> real \<times> real \<times> real" where
  "stop_fields s = (s_bin_id s, s_bin_code s, s_location s, s_latitude s, s_longitude s, s_waste_level s)"

text \<open>
  The coordinate test of the first loop, on a bin id: the bin exists and both coordinates
  are truthy.
\<close>

definition routable :: "database \<Rightarrow> nat \<Rightarrow> bool" where
  "routable db i =
     (case get_bin_by_id db i of
        None \<Rightarrow> False
      | Some bin_data \<Rightarrow> truthy (latitude bin_data) \<and> truthy (longitude bin_data))"

section \<open>Floating-point arithmetic as a parameter\<close>

text \<open>
  The definitions above compute in exact real arithmetic. The code computes in binary64,
  where every operation rounds, \<open>math.sqrt(1 - a)\<close> raises \<open>ValueError\<close> when rounding
  has pushed the haversine term \<open>a\<close> above 1, and the least-squares solver returns its
  slope only up to rounding. The definitions of this section are the same functions with
  the arithmetic taken as a parameter: the sum \<open>+\<close>, the quotient \<open>/\<close>,
  \<open>total_seconds()\<close>, the built-in \<open>sum\<close>, the score \<open>priority_score - distance * 5\<close>, \<open>calculate_distance\<close> (a value or
  the uncaught error) and the fitted coefficient (a value or a caught error). What is
  proved of them for every such arithmetic holds of the code whatever binary64 returns.
\<close>

record float_ops =
  fl_add :: "real \<Rightarrow> real \<Rightarrow> real"
  fl_div :: "real \<Rightarrow> real \<Rightarrow> real"
  fl_total_seconds :: "real \<Rightarrow> real"
  fl_sum :: "real list \<Rightarrow> real"
  fl_score :: "int \<Rightarrow> real \<Rightarrow> real"
  fl_distance :: "real \<Rightarrow> real \<Rightarrow> real \<Rightarrow> real \<Rightarrow> py_error + real"
  fl_fit :: "real list \<Rightarrow> real list \<Rightarrow> py_error + real"

text \<open>The exact arithmetic, in which the definitions above compute.\<close>

definition exact_ops :: float_ops where
  "exact_ops =
     \<lparr> fl_add = (\<lambda>x y. x + y),
       fl_div = (\<lambda>x y. x / y),
       fl_total_seconds = (\<lambda>s. s),
       fl_sum = sum_list,
       fl_score = (\<lambda>p d. real_of_int p - d * 5),
       fl_distance = (\<lambda>lat1 lon1 lat2 lon2. Inr (calculate_distance lat1 lon1 lat2 lon2)),
       fl_fit = (\<lambda>xs ys. Inr (linreg_coef xs ys)) \<rparr>"

text \<open>
  \<open>get_fill_rate\<close>: the hours are the float quotients of the floats
  \<open>total_seconds()\<close> returns, the slope is what the solver returns.
\<close>

fun regression_inputs_fl ::
  "float_ops \<Rightarrow> real \<Rightarrow> sensor_log list \<Rightarrow> py_error + (real list \<times> real list)" where
  "regression_inputs_fl ops base_time [] = Inr ([], [])"
| "regression_inputs_fl ops base_time (l # ls) =
     (case log_waste_level l of
        None \<Rightarrow> Inl TypeError
      | Some w \<Rightarrow>
          (case regression_inputs_fl ops base_time ls of
             Inl e \<Rightarrow> Inl e
           | Inr (timestamps, levels) \<Rightarrow>
               Inr (fl_div ops (fl_total_seconds ops (log_timestamp l - base_time)) 3600
                      # timestamps,
                    w # levels)))"

definition fitted_slope_fl :: "float_ops \<Rightarrow> sensor_log list \<Rightarrow> py_error + real" where
  "fitted_slope_fl ops logs =
     (case regression_inputs_fl ops (log_timestamp (hd logs)) logs of
        Inl e \<Rightarrow> Inl e
      | Inr (timestamps, levels) \<Rightarrow> fl_fit ops timestamps levels)"

definition fill_rate_of_logs_fl :: "float_ops \<Rightarrow> sensor_log list option \<Rightarrow> real" where
  "fill_rate_of_logs_fl ops logs =
     (case logs of
        None \<Rightarrow> 2
      | Some ls \<Rightarrow>
          if ls = [] \<or> length ls < 2 then 2
          else (case fitted_slope_fl ops ls of
                  Inl e \<Rightarrow> 2
                | Inr fill_rate \<Rightarrow>
                    if fill_rate \<le> 0 then 2
                    else if 10 < fill_rate then 10
                    else fill_rate))"

definition get_fill_rate_fl :: "float_ops \<Rightarrow> database \<Rightarrow> nat \<Rightarrow> real" where
  "get_fill_rate_fl ops db b = fill_rate_of_logs_fl ops (sensor_logs db b)"

text \<open>
  The inner loop of \<open>optimize_route\<close>: an error of \<open>calculate_distance\<close> leaves the
  loop, and the function, at once.
\<close>

fun find_best_fl ::
  "float_ops \<Rightarrow> real \<times> real \<Rightarrow> route_bin list \<Rightarrow> (route_bin \<times> real \<times> real) option
     \<Rightarrow> py_error + (route_bin \<times> real \<times> real) option" where
  "find_best_fl ops cur [] best = Inr best"
| "find_best_fl ops cur (bin_data # rest) best =
     (case fl_distance ops (fst cur) (snd cur) (rb_latitude bin_data) (rb_longitude bin_data) of
        Inl e \<Rightarrow> Inl e
      | Inr distance \<Rightarrow>
          (let score = fl_score ops (rb_priority_score bin_data) distance
           in find_best_fl ops cur rest
                (case best of
                   None \<Rightarrow> Some (bin_data, score, distance)
                 | Some (best_bin, best_score, best_distance) \<Rightarrow>
                     if best_score < score then Some (bin_data, score, distance) else best)))"

function nearest_neighbor_loop_fl ::
  "float_ops \<Rightarrow> real \<times> real \<Rightarrow> route_bin list \<Rightarrow> route_stop list \<Rightarrow> real
     \<Rightarrow> py_error + (route_stop list \<times> real)" where
  "nearest_neighbor_loop_fl ops cur remaining_bins optimized_route total_distance =
     (if remaining_bins = [] then Inr (optimized_route, total_distance)
      else (case find_best_fl ops cur remaining_bins None of
              Inl e \<Rightarrow> Inl e
            | Inr best \<Rightarrow>
                (case best of
                   None \<Rightarrow>
                     nearest_neighbor_loop_fl ops cur remaining_bins optimized_route total_distance
                 | Some (best_bin, best_score, best_distance) \<Rightarrow>
                     nearest_neighbor_loop_fl ops (rb_latitude best_bin, rb_longitude best_bin)
                       (remove1 best_bin remaining_bins)
                       (optimized_route
                          @ [make_stop (length optimized_route + 1) best_bin best_distance])
                       (fl_add ops total_distance best_distance))))"
  by pat_completeness auto

definition optimize_route_fl ::
  "float_ops \<Rightarrow> database \<Rightarrow> nat list \<Rightarrow> (real \<times> real) option \<Rightarrow> py_error + route_result" where
  "optimize_route_fl ops db bin_ids start_location =
     (if bin_ids = [] then Inr empty_route
      else (let bins = collect_bins db bin_ids
            in if bins = [] then Inr empty_route
               else (let (bins', cur) = starting_point bins start_location
                     in case nearest_neighbor_loop_fl ops cur bins' [] 0 of
                          Inl e \<Rightarrow> Inl e
                        | Inr (optimized_route, total_distance) \<Rightarrow>
                            Inr \<lparr> r_bins = optimized_route,
                                  r_total_bins = Some (length optimized_route),
                                  r_total_distance = py_round total_distance 2,
                                  r_optimization_method = ''nearest_neighbor_priority_weighted'',
                                  r_average_waste_level =
                                    Some (if optimized_route \<noteq> []
                                          then py_round
                                                 (fl_div ops
                                                    (fl_sum ops (map s_waste_level optimized_route))
                                                    (real (length optimized_route))) 2
                                          else 0) \<rparr>)))"

text \<open>
  What \<open>calculate_distance\<close> returns for the consecutive hops of a stop sequence that is
  entered from \<open>cur\<close>.
\<close>

fun hop_results :: "float_ops \<Rightarrow> real \<times> real \<Rightarrow> route_stop list \<Rightarrow> (py_error + real) list" where
  "hop_results ops cur [] = []"
| "hop_results ops cur (s # ss) =
     fl_distance ops (fst cur) (snd cur) (s_latitude s) (s_longitude s)
       # hop_results ops (s_latitude s, s_longitude s) ss"

text \<open>
  The positions a call can measure from (the start location and the kept bins), and the
  condition that \<open>calculate_distance\<close> succeeds from each of them to each kept bin.
\<close>

definition route_points :: "route_bin list \<Rightarrow> (real \<times> real) option \<Rightarrow> (real \<times> real) list" where
  "route_points bins start_location =
     (case start_location of None \<Rightarrow> [] | Some p \<Rightarrow> [p])
       @ map (\<lambda>b. (rb_latitude b, rb_longitude b)) bins"

definition distance_ok :: "float_ops \<Rightarrow> real \<times> real \<Rightarrow> route_bin \<Rightarrow> bool" where
  "distance_ok ops p b =
     (case fl_distance ops (fst p) (snd p) (rb_latitude b) (rb_longitude b) of
        Inl e \<Rightarrow> False
      | Inr d \<Rightarrow> True)"

definition distances_defined :: "float_ops \<Rightarrow> route_bin list \<Rightarrow> (real \<times> real) option \<Rightarrow> bool" where
  "distances_defined ops bins start_location =
     list_all (\<lambda>p. list_all (distance_ok ops p) bins) (route_points bins start_location)"

section \<open>Sample data\<close>

text \<open>Two active bins without sensor history, at 95% and at 85%.\<close>

definition demo_db :: database where
  "demo_db = \<lparr> bins_table =
       [\<lparr> bin_id = 1, bin_code = ''B1'', location = ''Gate'', zone = ''North'',
           latitude = Some 1, longitude = Some 1, waste_level = 95, status = ''active'' \<rparr>,
        \<lparr> bin_id = 2, bin_code = ''B2'', location = ''Park'', zone = ''North'',
           latitude = Some 1, longitude = Some 1, waste_level = 85, status = ''active'' \<rparr>],
     sensor_logs = (\<lambda>_. None) \<rparr>"

text \<open>Readings of 10%, 15% and 20% at hours 0, 1 and 2.\<close>

definition rising_logs :: "sensor_log list" where
  "rising_logs =
     [\<lparr> log_waste_level = Some 10, log_timestamp = 0 \<rparr>,
      \<lparr> log_waste_level = Some 15, log_timestamp = 3600 \<rparr>,
      \<lparr> log_waste_level = Some 20, log_timestamp = 7200 \<rparr>]"

definition rising_db :: database where
  "rising_db = \<lparr> bins_table = [], sensor_logs = (\<lambda>_. Some rising_logs) \<rparr>"

text \<open>Readings of 20% and 10% at hours 0 and 1: the bin was emptied in between.\<close>

definition falling_logs :: "sensor_log list" where
  "falling_logs =
     [\<lparr> log_waste_level = Some 20, log_timestamp = 0 \<rparr>,
      \<lparr> log_waste_level = Some 10, log_timestamp = 3600 \<rparr>]"

definition falling_db :: database where
  "falling_db = \<lparr> bins_table = [], sensor_logs = (\<lambda>_. Some falling_logs) \<rparr>"

text \<open>A single reading.\<close>

definition single_db :: database where
  "single_db = \<lparr> bins_table = [],
                 sensor_logs = (\<lambda>_. Some [\<lparr> log_waste_level = Some 40, log_timestamp = 0 \<rparr>]) \<rparr>"

text \<open>Three bins at one place; the second has no latitude.\<close>

definition mixed_db :: database where
  "mixed_db = \<lparr> bins_table =
       [\<lparr> bin_id = 1, bin_code = ''B1'', location = ''Gate'', zone = ''North'',
           latitude = Some 1, longitude = Some 1, waste_level = 95, status = ''active'' \<rparr>,
        \<lparr> bin_id = 2, bin_code = ''B2'', location = ''Park'', zone = ''North'',
           latitude = None, longitude = Some 1, waste_level = 85, status = ''active'' \<rparr>,
        \<lparr> bin_id = 3, bin_code = ''B3'', location = ''Mall'', zone = ''North'',
           latitude = Some 1, longitude = Some 1, waste_level = 40, status = ''active'' \<rparr>],
     sensor_logs = (\<lambda>_. None) \<rparr>"

text \<open>A bin on the prime meridian: its longitude is 0.\<close>

definition greenwich_db :: database where
  "greenwich_db = \<lparr> bins_table =
       [\<lparr> bin_id = 7, bin_code = ''G7'', location = ''Observatory'', zone = ''Greenwich'',
           latitude = Some (514779 / 10000), longitude = Some 0, waste_level = 95,
           status = ''active'' \<rparr>],
     sensor_logs = (\<lambda>_. None) \<rparr>"

text \<open>
  Three bins due north of the point (1, 1), spaced \<open>225 / 6371000\<close> degrees of latitude
  apart, which is \<open>pi / 800\<close> km.
\<close>

definition meridian_bin :: "nat \<Rightarrow> real \<Rightarrow> bin_row" where
  "meridian_bin k w =
     \<lparr> bin_id = k, bin_code = ''M'', location = ''Meridian Road'', zone = ''East'',
       latitude = Some (1 + real k * 225 / 6371000), longitude = Some 1, waste_level = w,
       status = ''active'' \<rparr>"

definition meridian_db :: database where
  "meridian_db = \<lparr> bins_table = [meridian_bin 1 10, meridian_bin 2 10, meridian_bin 3 11],
                   sensor_logs = (\<lambda>_. None) \<rparr>"


text \<open>
  Two bins at one place with levels 2.67 and 2.68, and an arithmetic whose quotient is
  the binary64 value of \<open>(2.67 + 2.68) / 2\<close>, just below 2.675.
\<close>

definition pair_db :: database where
  "pair_db = \<lparr> bins_table =
       [\<lparr> bin_id = 1, bin_code = ''P1'', location = ''Depot'', zone = ''South'',
           latitude = Some 1, longitude = Some 1, waste_level = 267 / 100, status = ''active'' \<rparr>,
        \<lparr> bin_id = 2, bin_code = ''P2'', location = ''Depot'', zone = ''South'',
           latitude = Some 1, longitude = Some 1, waste_level = 268 / 100, status = ''active'' \<rparr>],
     sensor_logs = (\<lambda>_. None) \<rparr>"

definition binary64_mean_ops :: float_ops where
  "binary64_mean_ops =
     exact_ops \<lparr> fl_div := (\<lambda>x y. 3011782250804019 / 1125899906842624) \<rparr>"

text \<open>
  Two bins at antipodal points, and an arithmetic in which \<open>calculate_distance\<close> raises
  on an antipodal pair, as binary64 does for \<open>(8, -7)\<close> and \<open>(-8, 173)\<close>, where the
  haversine term comes out as \<open>1.0000000000000002\<close>.
\<close>

definition antipodal_db :: database where
  "antipodal_db = \<lparr> bins_table =
       [\<lparr> bin_id = 1, bin_code = ''A1'', location = ''West'', zone = ''Far'',
           latitude = Some 8, longitude = Some (- 7), waste_level = 50, status = ''active'' \<rparr>,
        \<lparr> bin_id = 2, bin_code = ''A2'', location = ''East'', zone = ''Far'',
           latitude = Some (- 8), longitude = Some 173, waste_level = 50, status = ''active'' \<rparr>],
     sensor_logs = (\<lambda>_. None) \<rparr>"

definition raising_sqrt_ops :: float_ops where
  "raising_sqrt_ops =
     exact_ops \<lparr> fl_distance :=
       (\<lambda>lat1 lon1 lat2 lon2.
          if lat1 = - lat2 \<and> \<bar>lon1 - lon2\<bar> = 180 then Inl ValueError
          else Inr (calculate_distance lat1 lon1 lat2 lon2)) \<rparr>"

section \<open>Termination of the route loop\<close>

lemma find_best_Cons:
  "\<exists>r. find_best cur (b # rest) best = find_best cur rest (Some r) \<and> (best = Some r \<or> fst r = b)"
proof -
  define distance where
    "distance = calculate_distance (fst cur) (snd cur) (rb_latitude b) (rb_longitude b)"
  define score where "score = real_of_int (rb_priority_score b) - distance * 5"
  show ?thesis
  proof (cases best)
    case None
    then have "find_best cur (b # rest) best = find_best cur rest (Some (b, score, distance))"
      by (simp add: Let_def score_def distance_def)
    then show ?thesis by (intro exI [of _ "(b, score, distance)"]) simp
  next
    case (Some t)
    obtain bb bs bd where t: "t = (bb, bs, bd)" by (cases t)
    show ?thesis
    proof (cases "bs < score")
      case True
      with Some t have "find_best cur (b # rest) best = find_best cur rest (Some (b, score, distance))"
        by (simp add: Let_def score_def distance_def)
      then show ?thesis by (intro exI [of _ "(b, score, distance)"]) simp
    next
      case False
      with Some t have "find_best cur (b # rest) best = find_best cur rest (Some t)"
        by (simp add: Let_def score_def distance_def)
      with Some show ?thesis by (intro exI [of _ t]) simp
    qed
  qed
qed

lemma find_best_Some':
  "find_best cur bs (Some r) \<noteq> None"
proof (induction bs arbitrary: r)
  case Nil
  show ?case by simp
next
  case (Cons b bs)
  obtain r' where "find_best cur (b # bs) (Some r) = find_best cur bs (Some r')"
    using find_best_Cons by blast
  with Cons.IH show ?case by simp
qed

lemma find_best_Some:
  "bs \<noteq> [] \<Longrightarrow> find_best cur bs None \<noteq> None"
proof (cases bs)
  case Nil
  assume "bs \<noteq> []"
  with Nil show ?thesis by simp
next
  case (Cons b rest)
  obtain r' where "find_best cur (b # rest) None = find_best cur rest (Some r')"
    using find_best_Cons by blast
  with Cons show ?thesis by (simp only: find_best_Some' not_False_eq_True)
qed

lemma find_best_mem:
  "find_best cur bs best = Some r \<Longrightarrow> best = Some r \<or> fst r \<in> set bs"
proof (induction bs arbitrary: best)
  case Nil
  then show ?case by simp
next
  case (Cons b bs)
  obtain r' where r': "find_best cur (b # bs) best = find_best cur bs (Some r')"
    and d: "best = Some r' \<or> fst r' = b"
    using find_best_Cons by blast
  from Cons.prems r' have "find_best cur bs (Some r') = Some r" by simp
  from Cons.IH [OF this] have "Some r' = Some r \<or> fst r \<in> set bs" .
  with d show ?case by auto
qed

termination nearest_neighbor_loop
proof (relation "measure (\<lambda>(cur, remaining_bins, route, total). length remaining_bins)")
  show "wf (measure (\<lambda>(cur, remaining_bins, route, total). length remaining_bins))"
    by simp
next
  fix cur :: "real \<times> real" and remaining_bins :: "route_bin list"
    and optimized_route :: "route_stop list" and total_distance :: real
  assume "remaining_bins \<noteq> []" "find_best cur remaining_bins None = None"
  then show "((cur, remaining_bins, optimized_route, total_distance),
              (cur, remaining_bins, optimized_route, total_distance))
             \<in> measure (\<lambda>(cur, remaining_bins, route, total). length remaining_bins)"
    using find_best_Some [of remaining_bins cur] by simp
next
  fix cur :: "real \<times> real" and remaining_bins :: "route_bin list"
    and optimized_route :: "route_stop list" and total_distance :: real
    and x2 best_bin y best_score best_distance
  assume ne: "remaining_bins \<noteq> []"
    and fb: "find_best cur remaining_bins None = Some x2"
    and x2: "(best_bin, y) = x2" and y: "(best_score, best_distance) = y"
  from find_best_mem [OF fb] x2 have "best_bin \<in> set remaining_bins" by auto
  then have "length (remove1 best_bin remaining_bins) < length remaining_bins"
    by (simp add: length_remove1) (use ne in \<open>cases remaining_bins; simp\<close>)
  then show "(((rb_latitude best_bin, rb_longitude best_bin),
               remove1 best_bin remaining_bins,
               optimized_route @ [make_stop (length optimized_route + 1) best_bin best_distance],
               total_distance + best_distance),
              (cur, remaining_bins, optimized_route, total_distance))
             \<in> measure (\<lambda>(cur, remaining_bins, route, total). length remaining_bins)"
    by simp
qed

section \<open>The fit minimises the squared error\<close>








lemma fitted_slope_rising: "fitted_slope rising_logs = Inr 5"
  by (simp add: fitted_slope_def rising_logs_def linreg_coef_def linreg_sxx_def linreg_sxy_def mean_def)

lemma fitted_slope_falling: "fitted_slope falling_logs = Inr (- 10)"
  by (simp add: fitted_slope_def falling_logs_def linreg_coef_def linreg_sxx_def linreg_sxy_def mean_def)

lemma exact_ops_simps [simp]:
  "fl_add exact_ops x y = x + y"
  "fl_div exact_ops x y = x / y"
  "fl_total_seconds exact_ops x = x"
  "fl_sum exact_ops xs = sum_list xs"
  "fl_score exact_ops p d = real_of_int p - d * 5"
  "fl_distance exact_ops lat1 lon1 lat2 lon2 = Inr (calculate_distance lat1 lon1 lat2 lon2)"
  "fl_fit exact_ops xs ys = Inr (linreg_coef xs ys)"
  by (simp_all add: exact_ops_def)

lemma regression_inputs_fl_exact:
  "regression_inputs_fl exact_ops t ls = regression_inputs t ls"
  by (induction ls) (simp_all split: option.splits sum.splits)

lemma get_fill_rate_fl_exact: "get_fill_rate_fl exact_ops db b = get_fill_rate db b"
  by (simp add: get_fill_rate_fl_def get_fill_rate_def fill_rate_of_logs_fl_def
      fill_rate_of_logs_def fitted_slope_fl_def fitted_slope_def regression_inputs_fl_exact
      split: option.splits sum.splits prod.splits)

section \<open>Properties of predictor.py\<close>




text \<open>
  C5. A log sequence with fewer than two readings (or a failed query) gives the default
  rate 2.0; the function returns a value on every input, so no error is raised.
\<close>

theorem get_fill_rate_short_default:
  "(case sensor_logs db b of None \<Rightarrow> True | Some ls \<Rightarrow> length ls < 2)
   \<Longrightarrow> get_fill_rate db b = 2"
  by (auto simp: get_fill_rate_def fill_rate_of_logs_def split: option.splits)

theorem get_fill_rate_short_default_witness:
  "get_fill_rate single_db 1 = 2"
  using get_fill_rate_short_default [of single_db 1] by (simp add: single_db_def)

text \<open>
  C4. The estimate is always greater than 0 and at most 10: a failure inside the
  \<open>try\<close> block gives 2.0, a slope of at most 0 gives 2.0, a slope above 10 gives 10.0,
  and any other slope is returned as it is.
\<close>

theorem get_fill_rate_clamped:
  "0 < get_fill_rate db b \<and> get_fill_rate db b \<le> 10
   \<and> (\<forall>ls. sensor_logs db b = Some ls \<and> 2 \<le> length ls \<longrightarrow>
          (case fitted_slope ls of
             Inl e \<Rightarrow> get_fill_rate db b = 2
           | Inr slope \<Rightarrow>
               (slope \<le> 0 \<longrightarrow> get_fill_rate db b = 2)
               \<and> (10 < slope \<longrightarrow> get_fill_rate db b = 10)
               \<and> (0 < slope \<and> slope \<le> 10 \<longrightarrow> get_fill_rate db b = slope)))"
  by (auto simp: get_fill_rate_def fill_rate_of_logs_def split: option.splits sum.splits)

theorem get_fill_rate_clamped_witness:
  "0 < get_fill_rate rising_db 1 \<and> get_fill_rate rising_db 1 \<le> 10
   \<and> get_fill_rate rising_db 1 = 5 \<and> get_fill_rate falling_db 1 = 2"
proof -
  have r: "sensor_logs rising_db 1 = Some rising_logs \<and> 2 \<le> length rising_logs"
    by (simp add: rising_db_def rising_logs_def)
  have f: "sensor_logs falling_db 1 = Some falling_logs \<and> 2 \<le> length falling_logs"
    by (simp add: falling_db_def falling_logs_def)
  from get_fill_rate_clamped [of rising_db 1] get_fill_rate_clamped [of falling_db 1] r f
  show ?thesis by (simp add: fitted_slope_rising fitted_slope_falling)
qed

text \<open>
  C6. \<open>predict_time_to_full\<close> is 0 from level 100 on; below 100 it divides the
  remaining capacity by the fill rate, or by 2.0 when the rate is not positive.
\<close>

theorem predict_time_to_full_cases:
  "(100 \<le> current_level \<longrightarrow> predict_time_to_full b current_level fill_rate = 0)
   \<and> (current_level < 100 \<and> fill_rate \<le> 0
        \<longrightarrow> predict_time_to_full b current_level fill_rate = (100 - current_level) / 2)
   \<and> (current_level < 100 \<and> 0 < fill_rate
        \<longrightarrow> predict_time_to_full b current_level fill_rate = (100 - current_level) / fill_rate)"
  by (simp add: predict_time_to_full_def Let_def)

theorem predict_time_to_full_cases_witness:
  "predict_time_to_full 1 100 7 = 0 \<and> predict_time_to_full 1 40 (- 3) = 30
   \<and> predict_time_to_full 1 40 4 = 15"
  using predict_time_to_full_cases [of 100 1 7] predict_time_to_full_cases [of 40 1 "- 3"]
    predict_time_to_full_cases [of 40 1 4]
  by simp

lemma set_collect_predictions:
  "set (collect_predictions db th bs) =
     predict_bin db th ` {x \<in> set bs. status x = ''active'' \<and> needs_attention db th x}"
  by (induction bs) auto

lemma set_predict_bins_needing_collection:
  "set (predict_bins_needing_collection db th) =
     predict_bin db th ` {x \<in> set (get_all_bins db). status x = ''active'' \<and> needs_attention db th x}"
  by (simp add: predict_bins_needing_collection_def set_collect_predictions)

lemma p_priority_predict_bin:
  "p_priority (predict_bin db th x) =
     priority_of (waste_level x)
       (predict_time_to_full (bin_id x) (waste_level x) (get_fill_rate db (bin_id x))) th"
  by (simp add: predict_bin_def Let_def)

text \<open>
  C7. Every returned prediction belongs to an active bin, and its priority is the first
  match of: level at least 90, critical; level at least 80, high; hours to full within
  the threshold, medium; otherwise low. An active bin at level 95 is returned and tagged
  critical whatever its fill rate.
\<close>

theorem priority_tier_first_match:
  "(\<forall>p \<in> set (predict_bins_needing_collection db th).
      \<exists>x \<in> set (get_all_bins db). status x = ''active'' \<and> p = predict_bin db th x)
   \<and> (\<forall>x. p_priority (predict_bin db th x) =
          (let current_level = waste_level x;
               hours_to_full = predict_time_to_full (bin_id x) current_level
                                 (get_fill_rate db (bin_id x))
           in if 90 \<le> current_level then Critical
              else if 80 \<le> current_level then High
              else if hours_to_full \<le> th then Medium
              else Low))
   \<and> (\<forall>x \<in> set (get_all_bins db). status x = ''active'' \<and> waste_level x = 95
          \<longrightarrow> predict_bin db th x \<in> set (predict_bins_needing_collection db th)
              \<and> p_priority (predict_bin db th x) = Critical)"
proof (intro conjI)
  show "\<forall>p \<in> set (predict_bins_needing_collection db th).
      \<exists>x \<in> set (get_all_bins db). status x = ''active'' \<and> p = predict_bin db th x"
    unfolding set_predict_bins_needing_collection by blast
next
  show "\<forall>x. p_priority (predict_bin db th x) =
          (let current_level = waste_level x;
               hours_to_full = predict_time_to_full (bin_id x) current_level
                                 (get_fill_rate db (bin_id x))
           in if 90 \<le> current_level then Critical
              else if 80 \<le> current_level then High
              else if hours_to_full \<le> th then Medium
              else Low)"
    by (simp add: p_priority_predict_bin priority_of_def Let_def)
next
  show "\<forall>x \<in> set (get_all_bins db). status x = ''active'' \<and> waste_level x = 95
          \<longrightarrow> predict_bin db th x \<in> set (predict_bins_needing_collection db th)
              \<and> p_priority (predict_bin db th x) = Critical"
  proof (intro ballI impI)
    fix x assume x: "x \<in> set (get_all_bins db)" and a: "status x = ''active'' \<and> waste_level x = 95"
    then have "needs_attention db th x" by (simp add: needs_attention_def Let_def)
    with x a have "predict_bin db th x \<in> set (predict_bins_needing_collection db th)"
      unfolding set_predict_bins_needing_collection by blast
    moreover from a have "p_priority (predict_bin db th x) = Critical"
      by (simp add: p_priority_predict_bin priority_of_def)
    ultimately show "predict_bin db th x \<in> set (predict_bins_needing_collection db th)
              \<and> p_priority (predict_bin db th x) = Critical" by simp
  qed
qed

theorem priority_tier_first_match_witness:
  "predict_bin demo_db 24 (bins_table demo_db ! 0) \<in> set (predict_bins_needing_collection demo_db 24)
   \<and> p_priority (predict_bin demo_db 24 (bins_table demo_db ! 0)) = Critical
   \<and> p_priority (predict_bin demo_db 24 (bins_table demo_db ! 1)) = High"
proof -
  have m: "bins_table demo_db ! 0 \<in> set (get_all_bins demo_db)"
    by (simp add: demo_db_def get_all_bins_def)
  have s: "status (bins_table demo_db ! 0) = ''active'' \<and> waste_level (bins_table demo_db ! 0) = 95"
    by (simp add: demo_db_def)
  have h: "waste_level (bins_table demo_db ! 1) = 85" by (simp add: demo_db_def)
  from priority_tier_first_match [of demo_db 24] m s h show ?thesis
    by (simp add: Let_def)
qed

text \<open>
  C8. The returned list is a rearrangement of the collected predictions in ascending
  order of the key (tier rank, negated reported level), the ranks being critical 0, high 1,
  medium 2, low 3: an earlier entry has a lower rank, or the same rank and a level at least
  as high. Entries of equal key keep their input order.
\<close>

theorem predictions_sorted_stable:
  "(let out = predict_bins_needing_collection db th;
        pre = collect_predictions db th (get_all_bins db)
    in mset out = mset pre
       \<and> (\<forall>i j. i < j \<and> j < length out \<longrightarrow>
             priority_order (p_priority (out ! i)) < priority_order (p_priority (out ! j))
             \<or> (priority_order (p_priority (out ! i)) = priority_order (p_priority (out ! j))
                \<and> p_current_level (out ! j) \<le> p_current_level (out ! i)))
       \<and> (\<forall>k. filter (\<lambda>x. sort_key_of x = k) out = filter (\<lambda>x. sort_key_of x = k) pre))
   \<and> priority_order Critical = 0 \<and> priority_order High = 1
   \<and> priority_order Medium = 2 \<and> priority_order Low = 3"
proof -
  define pre where "pre = collect_predictions db th (get_all_bins db)"
  define out where "out = predict_bins_needing_collection db th"
  have out: "out = sort_key sort_key_of pre"
    by (simp add: out_def pre_def predict_bins_needing_collection_def)
  have 1: "mset out = mset pre" by (simp add: out)
  have srt: "sorted (map sort_key_of out)" by (simp add: out)
  have 2: "priority_order (p_priority (out ! i)) < priority_order (p_priority (out ! j))
             \<or> (priority_order (p_priority (out ! i)) = priority_order (p_priority (out ! j))
                \<and> p_current_level (out ! j) \<le> p_current_level (out ! i))"
    if "i < j \<and> j < length out" for i j
  proof -
    from that have "map sort_key_of out ! i \<le> map sort_key_of out ! j"
      by (intro sorted_nth_mono [OF srt]) simp_all
    with that have "sort_key_of (out ! i) \<le> sort_key_of (out ! j)" by simp
    then show ?thesis by (auto simp: sort_key_of_def)
  qed
  have 3: "filter (\<lambda>x. sort_key_of x = k) out = filter (\<lambda>x. sort_key_of x = k) pre" for k
    unfolding out by (rule sort_key_stable)
  from 1 2 3 show ?thesis
    unfolding Let_def out_def [symmetric] pre_def [symmetric] by simp
qed

theorem predictions_sorted_stable_witness:
  "map p_bin_id (predict_bins_needing_collection demo_db 24) = [1, 2]
   \<and> (let out = predict_bins_needing_collection demo_db 24
      in priority_order (p_priority (out ! 0)) < priority_order (p_priority (out ! 1)))"
proof -
  have e: "map p_bin_id (predict_bins_needing_collection demo_db 24) = [1, 2]"
    by (simp add: predict_bins_needing_collection_def demo_db_def
        get_all_bins_def needs_attention_def predict_bin_def get_fill_rate_def
        fill_rate_of_logs_def predict_time_to_full_def Let_def priority_of_def float_or_none_def
        truthy_def py_round_def round_half_even_def sort_key_of_def)
  then have l: "length (predict_bins_needing_collection demo_db 24) = 2"
    by (metis length_map length_Cons list.size(3) numeral_2_eq_2)
  have p: "p_priority (predict_bins_needing_collection demo_db 24 ! 0) = Critical
     \<and> p_priority (predict_bins_needing_collection demo_db 24 ! 1) = High"
    by (simp add: predict_bins_needing_collection_def demo_db_def
        get_all_bins_def needs_attention_def predict_bin_def get_fill_rate_def
        fill_rate_of_logs_def predict_time_to_full_def Let_def priority_of_def float_or_none_def
        truthy_def py_round_def round_half_even_def sort_key_of_def)
  from predictions_sorted_stable [of demo_db 24] l e p show ?thesis
    by (simp add: Let_def)
qed

lemma py_slice_to_subseq: "subseq (py_slice_to xs n) xs"
  by (simp add: py_slice_to_def) (metis append_take_drop_id list_emb_prefix subseq_order.order_refl)

lemma set_py_slice_to: "set (py_slice_to xs n) \<subseteq> set xs"
  by (auto simp: py_slice_to_def dest: in_set_takeD)

text \<open>
  C10, as the code has it. For a bound \<open>max_bins\<close> that is not negative,
  \<open>get_optimal_collection_bins\<close> returns at most \<open>max_bins\<close> entries; for every bound
  each returned entry has \<open>needs_collection\<close> set and the entries are a subsequence of
  the ranked predictions.
\<close>

theorem get_optimal_collection_bins_bounded:
  "(0 \<le> max_bins \<longrightarrow> int (length (get_optimal_collection_bins db max_bins)) \<le> max_bins)
   \<and> (\<forall>p \<in> set (get_optimal_collection_bins db max_bins). p_needs_collection p)
   \<and> subseq (get_optimal_collection_bins db max_bins) (predict_bins_needing_collection db 24)"
proof (intro conjI)
  show "0 \<le> max_bins \<longrightarrow> int (length (get_optimal_collection_bins db max_bins)) \<le> max_bins"
    by (auto simp: get_optimal_collection_bins_def py_slice_to_def Let_def min_def)
next
  show "\<forall>p \<in> set (get_optimal_collection_bins db max_bins). p_needs_collection p"
    using set_py_slice_to [of "filter p_needs_collection (predict_bins_needing_collection db 24)" max_bins]
    by (auto simp: get_optimal_collection_bins_def Let_def)
next
  have "subseq (get_optimal_collection_bins db max_bins)
          (filter p_needs_collection (predict_bins_needing_collection db 24))"
    by (simp add: get_optimal_collection_bins_def Let_def py_slice_to_subseq)
  then show "subseq (get_optimal_collection_bins db max_bins) (predict_bins_needing_collection db 24)"
    using subseq_filter_left subseq_order.order_trans by blast
qed

theorem get_optimal_collection_bins_bounded_witness:
  "(0::int) \<le> 1 \<and> int (length (get_optimal_collection_bins demo_db 1)) \<le> 1
   \<and> map p_bin_id (get_optimal_collection_bins demo_db 1) = [1]"
proof -
  have "map p_bin_id (get_optimal_collection_bins demo_db 1) = [1]"
    by (simp add: get_optimal_collection_bins_def py_slice_to_def
        predict_bins_needing_collection_def demo_db_def
        get_all_bins_def needs_attention_def predict_bin_def get_fill_rate_def
        fill_rate_of_logs_def predict_time_to_full_def Let_def priority_of_def float_or_none_def
        truthy_def py_round_def round_half_even_def sort_key_of_def)
  with get_optimal_collection_bins_bounded [of 1 demo_db] show ?thesis by simp
qed

text \<open>
  C10 as stated fails for a negative bound: the slice \<open>[:-1]\<close> drops the last entry
  only, so two bins that need collection leave one entry, more than \<open>-1\<close>.
\<close>

theorem get_optimal_collection_bins_negative_counterexample:
  "map p_bin_id (get_optimal_collection_bins demo_db (- 1)) = [1]
   \<and> \<not> int (length (get_optimal_collection_bins demo_db (- 1))) \<le> - 1"
  by (simp add: get_optimal_collection_bins_def py_slice_to_def
        predict_bins_needing_collection_def demo_db_def
        get_all_bins_def needs_attention_def predict_bin_def get_fill_rate_def
        fill_rate_of_logs_def predict_time_to_full_def Let_def priority_of_def float_or_none_def
        truthy_def py_round_def round_half_even_def sort_key_of_def)

section \<open>The haversine distance\<close>




lemma calculate_distance_same [simp]: "calculate_distance la lo la lo = 0"
  by (simp add: calculate_distance_def haversine_a_def atan2_def Let_def)

lemma calculate_distance_meridian:
  assumes "\<bar>la2 - la1\<bar> < 180"
  shows "calculate_distance la1 lo la2 lo = 6371 * (\<bar>la2 - la1\<bar> * pi / 180)"
proof -
  define x where "x = (radians la2 - radians la1) / 2"
  have x: "x = (la2 - la1) * pi / 360" by (simp add: x_def radians_def field_simps)
  have ax: "\<bar>x\<bar> = \<bar>la2 - la1\<bar> * pi / 360" unfolding x by (simp add: abs_mult)
  have "\<bar>la2 - la1\<bar> * pi < 180 * pi" using assms pi_gt_zero by simp
  then have bound: "\<bar>x\<bar> < pi / 2" unfolding ax by simp
  then have cpos: "0 < cos x" by (intro cos_gt_zero_pi) (auto simp: abs_less_iff)
  then have cax: "0 < cos \<bar>x\<bar>" by (simp add: abs_if)
  have a: "haversine_a la1 lo la2 lo = (sin x)\<^sup>2"
    by (simp add: haversine_a_def Let_def x_def)
  have s1: "sqrt (haversine_a la1 lo la2 lo) = \<bar>sin x\<bar>" unfolding a by simp
  have "1 - haversine_a la1 lo la2 lo = (cos x)\<^sup>2" unfolding a by (simp add: cos_squared_eq)
  then have s2: "sqrt (1 - haversine_a la1 lo la2 lo) = cos x" using cpos by simp
  have sabs: "\<bar>sin x\<bar> = sin \<bar>x\<bar>"
  proof (cases "0 \<le> x")
    case True
    with bound have "0 \<le> sin x" by (intro sin_ge_zero) (auto simp: abs_less_iff)
    with True show ?thesis by simp
  next
    case False
    with bound have "0 \<le> sin (- x)" by (intro sin_ge_zero) (auto simp: abs_less_iff)
    with False show ?thesis by simp
  qed
  have "atan2 \<bar>sin x\<bar> (cos x) = arctan (sin \<bar>x\<bar> / cos \<bar>x\<bar>)"
    using cpos by (simp add: atan2_def sabs)
  also have "\<dots> = arctan (tan \<bar>x\<bar>)" by (simp add: tan_def)
  also have "\<dots> = \<bar>x\<bar>" using bound by (intro arctan_tan) auto
  finally have at: "atan2 \<bar>sin x\<bar> (cos x) = \<bar>x\<bar>" .
  have "calculate_distance la1 lo la2 lo = 6371 * (2 * atan2 \<bar>sin x\<bar> (cos x))"
    by (simp add: calculate_distance_def Let_def s1 s2)
  also have "\<dots> = 6371 * (\<bar>la2 - la1\<bar> * pi / 180)" unfolding at ax by simp
  finally show ?thesis .
qed

section \<open>The selection loop and the descending sort\<close>

lemma find_best_step:
  "find_best cur (b # rest) best =
     find_best cur rest
       (case best of
          None \<Rightarrow> Some (b, weighted_score cur b, bin_distance cur b)
        | Some t \<Rightarrow> if fst (snd t) < weighted_score cur b
                    then Some (b, weighted_score cur b, bin_distance cur b) else Some t)"
proof (cases best)
  case None
  then show ?thesis by (simp add: Let_def weighted_score_def bin_distance_def)
next
  case (Some t)
  obtain bb bs bd where t: "t = (bb, bs, bd)" by (cases t)
  show ?thesis unfolding Some t
    by (simp add: Let_def weighted_score_def bin_distance_def)
qed

lemma find_best_keep:
  "\<forall>b \<in> set bs. weighted_score cur b \<le> s0 \<Longrightarrow>
   find_best cur bs (Some (b0, s0, d0)) = Some (b0, s0, d0)"
proof (induction bs)
  case Nil
  show ?case by simp
next
  case (Cons b bs)
  from Cons.prems have le: "\<not> s0 < weighted_score cur b" by auto
  from Cons.prems have "\<forall>b \<in> set bs. weighted_score cur b \<le> s0" by simp
  from Cons.IH [OF this] le show ?case
    by (simp only: find_best_step option.case fst_conv snd_conv if_False)
qed

lemma find_best_entry:
  "find_best cur bs best = Some r \<Longrightarrow>
   best = Some r \<or> (fst r \<in> set bs \<and> r = (fst r, weighted_score cur (fst r), bin_distance cur (fst r)))"
proof (induction bs arbitrary: best)
  case Nil
  then show ?case by simp
next
  case (Cons b bs)
  define best' where "best' = (case best of
          None \<Rightarrow> Some (b, weighted_score cur b, bin_distance cur b)
        | Some t \<Rightarrow> if fst (snd t) < weighted_score cur b
                    then Some (b, weighted_score cur b, bin_distance cur b) else Some t)"
  from Cons.prems have "find_best cur bs best' = Some r"
    by (simp only: find_best_step best'_def)
  from Cons.IH [OF this]
  have d: "best' = Some r \<or> (fst r \<in> set bs \<and> r = (fst r, weighted_score cur (fst r), bin_distance cur (fst r)))" .
  have "best' = best \<or> best' = Some (b, weighted_score cur b, bin_distance cur b)"
    by (auto simp: best'_def split: option.splits)
  with d show ?case by auto
qed

lemma mset_py_sort_reverse [simp]: "mset (py_sort_reverse f xs) = mset xs"
  by (simp add: py_sort_reverse_def)



lemma py_sort_reverse_Nil [simp]: "py_sort_reverse f xs = [] \<longleftrightarrow> xs = []"
  by (metis mset_py_sort_reverse mset_zero_iff)


section \<open>The route loop\<close>

lemma make_stop_simps [simp]:
  "s_sequence (make_stop n b d) = n"
  "s_latitude (make_stop n b d) = rb_latitude b"
  "s_longitude (make_stop n b d) = rb_longitude b"
  "s_waste_level (make_stop n b d) = rb_waste_level b"
  "s_bin_id (make_stop n b d) = rb_bin_id b"
  "s_distance_from_previous (make_stop n b d) = py_round d 2"
  "stop_fields (make_stop n b d) = bin_fields b"
  by (simp_all add: make_stop_def stop_fields_def bin_fields_def)

lemma loop_Nil [simp]: "nearest_neighbor_loop cur [] route tot = (route, tot)"
  by (subst nearest_neighbor_loop.simps) simp

lemma loop_step:
  assumes "remaining \<noteq> []" "find_best cur remaining None = Some (b, s, d)"
  shows "nearest_neighbor_loop cur remaining route tot =
           nearest_neighbor_loop (rb_latitude b, rb_longitude b) (remove1 b remaining)
             (route @ [make_stop (length route + 1) b d]) (tot + d)"
  by (subst nearest_neighbor_loop.simps) (simp add: assms)

lemma loop_result:
  "\<exists>new. nearest_neighbor_loop cur remaining route tot
            = (route @ new, tot + sum_list (hop_distances cur new))
     \<and> map s_distance_from_previous new = map (\<lambda>d. py_round d 2) (hop_distances cur new)
     \<and> mset (map stop_fields new) = mset (map bin_fields remaining)
     \<and> map s_sequence new = [length route + 1 ..< length route + 1 + length remaining]"
proof (induction cur remaining route tot rule: nearest_neighbor_loop.induct)
  case (1 cur remaining route tot)
  show ?case
  proof (cases "remaining = []")
    case True
    then show ?thesis by (intro exI [of _ "[]"]) simp
  next
    case False
    then obtain r where r: "find_best cur remaining None = Some r"
      using find_best_Some [of remaining cur] by auto
    obtain b y where rb: "(b, y) = r" by (cases r) auto
    obtain s d where sd: "(s, d) = y" by (cases y) auto
    from find_best_entry [OF r] rb sd
    have mem: "b \<in> set remaining" and d: "d = bin_distance cur b" by auto
    have fb: "find_best cur remaining None = Some (b, s, d)" using r rb sd by simp
    define stop where "stop = make_stop (length route + 1) b d"
    from "1.IH"(2) [OF False r rb sd]
    obtain new where
      n1: "nearest_neighbor_loop (rb_latitude b, rb_longitude b) (remove1 b remaining)
             (route @ [stop]) (tot + d)
           = ((route @ [stop]) @ new,
              tot + d + sum_list (hop_distances (rb_latitude b, rb_longitude b) new))"
      and n2: "map s_distance_from_previous new
                 = map (\<lambda>d. py_round d 2) (hop_distances (rb_latitude b, rb_longitude b) new)"
      and n3: "mset (map stop_fields new) = mset (map bin_fields (remove1 b remaining))"
      and n4: "map s_sequence new
                 = [length (route @ [stop]) + 1 ..<
                      length (route @ [stop]) + 1 + length (remove1 b remaining)]"
      unfolding stop_def by blast
    have hd: "hop_distances cur (stop # new)
                = d # hop_distances (rb_latitude b, rb_longitude b) new"
      by (simp add: stop_def d bin_distance_def)
    have c1: "nearest_neighbor_loop cur remaining route tot
                = (route @ (stop # new), tot + sum_list (hop_distances cur (stop # new)))"
      unfolding loop_step [OF False fb] hd using n1 by (simp add: stop_def)
    have c2: "map s_distance_from_previous (stop # new)
                = map (\<lambda>d. py_round d 2) (hop_distances cur (stop # new))"
      unfolding hd using n2 by (simp add: stop_def)
    have "mset (map bin_fields remaining)
            = add_mset (bin_fields b) (mset (map bin_fields (remove1 b remaining)))"
      using mem by (metis image_mset_add_mset insert_DiffM mset_map mset_remove1 set_mset_mset)
    then have c3: "mset (map stop_fields (stop # new)) = mset (map bin_fields remaining)"
      using n3 by (simp add: stop_def)
    obtain n where n: "length remaining = Suc n"
      using False by (cases remaining) auto
    have len: "length (remove1 b remaining) = n"
      using mem n by (simp add: length_remove1)
    have "[length route + 1 ..< length route + 1 + length remaining]
            = (length route + 1) # [length route + 2 ..< length route + 2 + n]"
      unfolding n by (simp add: upt_conv_Cons)
    moreover have "map s_sequence new = [length route + 2 ..< length route + 2 + n]"
      using n4 len by simp
    ultimately have c4: "map s_sequence (stop # new)
                 = [length route + 1 ..< length route + 1 + length remaining]"
      by (simp add: stop_def)
    from c1 c2 c3 c4 show ?thesis by blast
  qed
qed

lemma get_bin_by_id_Some: "get_bin_by_id db i = Some row \<Longrightarrow> bin_id row = i \<and> row \<in> set (bins_table db)"
  by (auto simp: get_bin_by_id_def find_Some_iff)

lemma route_bin_of_Some:
  "route_bin_of row = Some b \<longleftrightarrow>
     truthy (latitude row) \<and> truthy (longitude row)
     \<and> b = \<lparr> rb_bin_id = bin_id row, rb_bin_code = bin_code row, rb_location = location row,
             rb_latitude = the (latitude row), rb_longitude = the (longitude row),
             rb_waste_level = waste_level row,
             rb_priority_score = get_bin_priority_score (waste_level row) \<rparr>"
  by (auto simp: route_bin_of_def truthy_def split: option.splits)

lemma route_bin_of_None:
  "route_bin_of row = None \<longleftrightarrow> \<not> (truthy (latitude row) \<and> truthy (longitude row))"
  by (auto simp: route_bin_of_def truthy_def split: option.splits)

lemma collect_bins_ids: "map rb_bin_id (collect_bins db bin_ids) = filter (routable db) bin_ids"
proof (induction bin_ids)
  case Nil
  show ?case by simp
next
  case (Cons i bin_ids)
  show ?case
  proof (cases "get_bin_by_id db i")
    case None
    with Cons.IH show ?thesis by (simp add: routable_def)
  next
    case (Some row)
    note row = this
    show ?thesis
    proof (cases "route_bin_of row")
      case None
      then have "\<not> (truthy (latitude row) \<and> truthy (longitude row))"
        by (simp add: route_bin_of_None)
      with row None Cons.IH show ?thesis by (simp add: routable_def)
    next
      case (Some b)
      then have "truthy (latitude row) \<and> truthy (longitude row)" and "rb_bin_id b = bin_id row"
        by (auto simp: route_bin_of_Some)
      with row Some Cons.IH get_bin_by_id_Some [OF row] show ?thesis
        by (simp add: routable_def)
    qed
  qed
qed

lemma collect_bins_origin:
  "b \<in> set (collect_bins db bin_ids) \<Longrightarrow>
   \<exists>i \<in> set bin_ids. \<exists>row. get_bin_by_id db i = Some row \<and> route_bin_of row = Some b"
proof (induction bin_ids)
  case Nil
  then show ?case by simp
next
  case (Cons i bin_ids)
  then show ?case by (auto split: option.splits)
qed

lemma collect_bins_empty_iff: "collect_bins db bin_ids = [] \<longleftrightarrow> filter (routable db) bin_ids = []"
  by (metis collect_bins_ids map_is_Nil_conv)

lemma optimize_route_empty:
  "collect_bins db bin_ids = [] \<Longrightarrow> optimize_route db bin_ids start = empty_route"
  by (simp add: optimize_route_def Let_def)

lemma optimize_route_run:
  assumes "collect_bins db bin_ids \<noteq> []"
    and "starting_point (collect_bins db bin_ids) start = (bins', cur)"
    and "nearest_neighbor_loop cur bins' [] 0 = (route, tot)"
  shows "optimize_route db bin_ids start =
           \<lparr> r_bins = route,
             r_total_bins = Some (length route),
             r_total_distance = py_round tot 2,
             r_optimization_method = ''nearest_neighbor_priority_weighted'',
             r_average_waste_level =
               Some (if route \<noteq> []
                     then py_round (sum_list (map s_waste_level route) / real (length route)) 2
                     else 0) \<rparr>"
proof -
  from assms(1) have "bin_ids \<noteq> []" by auto
  with assms show ?thesis by (simp add: optimize_route_def Let_def)
qed

lemma starting_point_mset: "starting_point bins start = (bins', cur) \<Longrightarrow> mset bins' = mset bins"
  by (auto simp: starting_point_def Let_def split: option.splits)

lemma route_stops:
  assumes ne: "collect_bins db bin_ids \<noteq> []"
    and sp: "starting_point (collect_bins db bin_ids) start = (bins', cur)"
  shows "r_total_distance (optimize_route db bin_ids start)
           = py_round (sum_list (hop_distances cur (r_bins (optimize_route db bin_ids start)))) 2"
    and "map s_distance_from_previous (r_bins (optimize_route db bin_ids start))
           = map (\<lambda>d. py_round d 2) (hop_distances cur (r_bins (optimize_route db bin_ids start)))"
    and "mset (map stop_fields (r_bins (optimize_route db bin_ids start)))
           = mset (map bin_fields (collect_bins db bin_ids))"
    and "map s_sequence (r_bins (optimize_route db bin_ids start))
           = [1 ..< length (r_bins (optimize_route db bin_ids start)) + 1]"
    and "r_average_waste_level (optimize_route db bin_ids start)
           = Some (py_round (sum_list (map s_waste_level (r_bins (optimize_route db bin_ids start)))
                             / real (length (r_bins (optimize_route db bin_ids start)))) 2)"
    and "r_bins (optimize_route db bin_ids start) \<noteq> []"
proof -
  from loop_result [of cur bins' "[]" 0] obtain new where
    l1: "nearest_neighbor_loop cur bins' [] 0 = (new, sum_list (hop_distances cur new))"
    and l2: "map s_distance_from_previous new = map (\<lambda>d. py_round d 2) (hop_distances cur new)"
    and l3: "mset (map stop_fields new) = mset (map bin_fields bins')"
    and l4: "map s_sequence new = [1 ..< 1 + length bins']"
    by auto
  have r: "r_bins (optimize_route db bin_ids start) = new"
    and t: "r_total_distance (optimize_route db bin_ids start) = py_round (sum_list (hop_distances cur new)) 2"
    and a: "r_average_waste_level (optimize_route db bin_ids start)
              = Some (if new \<noteq> [] then py_round (sum_list (map s_waste_level new) / real (length new)) 2 else 0)"
    unfolding optimize_route_run [OF ne sp l1] by simp_all
  have m: "mset bins' = mset (collect_bins db bin_ids)" by (rule starting_point_mset [OF sp])
  have ln: "length new = length bins'"
    using l3 by (metis length_map size_mset)
  have "bins' \<noteq> []" using m ne by (metis mset_zero_iff)
  with ln have nn: "new \<noteq> []" by auto
  show "r_total_distance (optimize_route db bin_ids start)
           = py_round (sum_list (hop_distances cur (r_bins (optimize_route db bin_ids start)))) 2"
    unfolding r by (rule t)
  show "map s_distance_from_previous (r_bins (optimize_route db bin_ids start))
           = map (\<lambda>d. py_round d 2) (hop_distances cur (r_bins (optimize_route db bin_ids start)))"
    unfolding r by (rule l2)
  show "mset (map stop_fields (r_bins (optimize_route db bin_ids start)))
           = mset (map bin_fields (collect_bins db bin_ids))"
    unfolding r l3 using m by (metis mset_map)
  show "map s_sequence (r_bins (optimize_route db bin_ids start))
           = [1 ..< length (r_bins (optimize_route db bin_ids start)) + 1]"
    unfolding r using l4 ln by simp
  show "r_average_waste_level (optimize_route db bin_ids start)
           = Some (py_round (sum_list (map s_waste_level (r_bins (optimize_route db bin_ids start)))
                             / real (length (r_bins (optimize_route db bin_ids start)))) 2)"
    unfolding r a using nn by simp
  show "r_bins (optimize_route db bin_ids start) \<noteq> []" unfolding r by (rule nn)
qed

lemma routable_iff:
  "routable db i \<longleftrightarrow>
     (\<exists>row la lo. get_bin_by_id db i = Some row \<and> latitude row = Some la \<and> longitude row = Some lo
                   \<and> la \<noteq> 0 \<and> lo \<noteq> 0)"
  by (auto simp: routable_def truthy_def split: option.splits)

lemma find_best_first:
  assumes "\<forall>b \<in> set rest. weighted_score cur b \<le> weighted_score cur b0"
  shows "find_best cur (b0 # rest) None = Some (b0, weighted_score cur b0, bin_distance cur b0)"
  using find_best_keep [OF assms] by (simp only: find_best_step option.case)


lemma bin_distance_own [simp]: "bin_distance (rb_latitude b, rb_longitude b) b = 0"
  by (simp add: bin_distance_def)

lemma weighted_score_own [simp]:
  "weighted_score (rb_latitude b, rb_longitude b) b = real_of_int (rb_priority_score b)"
  by (simp add: weighted_score_def)

lemma py_round_0 [simp]: "py_round 0 n = 0"
  by (simp add: py_round_def round_half_even_def)



lemma round_half_even_unique:
  assumes "real_of_int n - 1 / 2 < x" "x < real_of_int n + 1 / 2"
  shows "round_half_even x = n"
proof (cases "real_of_int n \<le> x")
  case True
  with assms have "\<lfloor>x\<rfloor> = n" by (intro floor_unique) linarith+
  with assms True show ?thesis by (simp add: round_half_even_def Let_def)
next
  case False
  with assms have f: "\<lfloor>x\<rfloor> = n - 1" by (intro floor_unique) (simp, linarith)+
  from assms False have "1 / 2 < x - real_of_int (n - 1)" by simp
  with f show ?thesis by (simp add: round_half_even_def Let_def)
qed

lemma py_round_unique:
  assumes "real_of_int n - 1 / 2 < x * 100" "x * 100 < real_of_int n + 1 / 2"
  shows "py_round x 2 = real_of_int n / 100"
  using round_half_even_unique [OF assms] by (simp add: py_round_def)

lemma demo_route:
  "optimize_route demo_db [1, 2] None =
     \<lparr> r_bins =
         [\<lparr> s_sequence = 1, s_bin_id = 1, s_bin_code = ''B1'', s_location = ''Gate'',
            s_latitude = 1, s_longitude = 1, s_waste_level = 95, s_distance_from_previous = 0 \<rparr>,
          \<lparr> s_sequence = 2, s_bin_id = 2, s_bin_code = ''B2'', s_location = ''Park'',
            s_latitude = 1, s_longitude = 1, s_waste_level = 85, s_distance_from_previous = 0 \<rparr>],
       r_total_bins = Some 2,
       r_total_distance = 0,
       r_optimization_method = ''nearest_neighbor_priority_weighted'',
       r_average_waste_level = Some 90 \<rparr>"
proof -
  define b1 where "b1 = \<lparr> rb_bin_id = 1, rb_bin_code = ''B1'', rb_location = ''Gate'',
      rb_latitude = 1, rb_longitude = 1, rb_waste_level = 95, rb_priority_score = 100 \<rparr>"
  define b2 where "b2 = \<lparr> rb_bin_id = 2, rb_bin_code = ''B2'', rb_location = ''Park'',
      rb_latitude = 1, rb_longitude = 1, rb_waste_level = 85, rb_priority_score = 80 \<rparr>"
  have c: "collect_bins demo_db [1, 2] = [b1, b2]"
    by (simp add: get_bin_by_id_def demo_db_def route_bin_of_def get_bin_priority_score_def
        b1_def b2_def)
  have ne: "collect_bins demo_db [1, 2] \<noteq> []" unfolding c by simp
  have s: "py_sort_reverse rb_priority_score [b1, b2] = [b1, b2]"
    by (simp add: py_sort_reverse_def b1_def b2_def)
  have sp: "starting_point (collect_bins demo_db [1, 2]) None = ([b1, b2], (1, 1))"
    unfolding c by (simp add: starting_point_def Let_def s) (simp add: b1_def)
  have w1: "weighted_score (1, 1) b1 = 100" and w2: "weighted_score (1, 1) b2 = 80"
    and d1: "bin_distance (1, 1) b1 = 0" and d2: "bin_distance (1, 1) b2 = 0"
    by (simp_all add: weighted_score_def bin_distance_def b1_def b2_def)
  have f1: "find_best (1, 1) [b1, b2] None = Some (b1, 100, 0)"
    using find_best_first [of "[b2]" "(1, 1)" b1] by (simp add: w1 w2 d1)
  have f2: "find_best (1, 1) [b2] None = Some (b2, 80, 0)"
    using find_best_first [of "[]" "(1, 1)" b2] by (simp add: w2 d2)
  have p1: "(rb_latitude b1, rb_longitude b1) = (1, 1)" and p2: "(rb_latitude b2, rb_longitude b2) = (1, 1)"
    by (simp_all add: b1_def b2_def)
  have "nearest_neighbor_loop (1, 1) [b1, b2] [] 0
          = nearest_neighbor_loop (1, 1) [b2] [make_stop 1 b1 0] 0"
    using loop_step [OF _ f1, of "[]" 0] by (simp add: p1)
  also have "\<dots> = nearest_neighbor_loop (1, 1) [] [make_stop 1 b1 0, make_stop 2 b2 0] 0"
    using loop_step [OF _ f2, of "[make_stop 1 b1 0]" 0] by (simp add: p2 numeral_2_eq_2)
  finally have l: "nearest_neighbor_loop (1, 1) [b1, b2] [] 0
                     = ([make_stop 1 b1 0, make_stop 2 b2 0], 0)"
    by simp
  have "py_round 90 2 = 90" using py_round_unique [of 9000 90] by simp
  then show ?thesis
    unfolding optimize_route_run [OF ne sp l]
    by (simp add: make_stop_def b1_def b2_def)
qed

lemma route_fields_mset:
  "mset (map stop_fields (r_bins (optimize_route db bin_ids start)))
     = mset (map bin_fields (collect_bins db bin_ids))"
proof (cases "collect_bins db bin_ids = []")
  case True
  then show ?thesis by (simp add: optimize_route_empty empty_route_def)
next
  case False
  obtain bins' cur where "starting_point (collect_bins db bin_ids) start = (bins', cur)"
    by (cases "starting_point (collect_bins db bin_ids) start")
  from route_stops(3) [OF False this] show ?thesis .
qed

lemma route_ids_mset:
  "mset (map s_bin_id (r_bins (optimize_route db bin_ids start)))
     = mset (filter (routable db) bin_ids)"
proof -
  define R where "R = r_bins (optimize_route db bin_ids start)"
  have "mset (map s_bin_id R) = image_mset fst (mset (map stop_fields R))"
    by (simp add: stop_fields_def multiset.map_comp comp_def)
  also have "\<dots> = image_mset fst (mset (map bin_fields (collect_bins db bin_ids)))"
    unfolding R_def by (simp only: route_fields_mset)
  also have "\<dots> = mset (map rb_bin_id (collect_bins db bin_ids))"
    by (simp add: bin_fields_def multiset.map_comp comp_def)
  finally show ?thesis by (simp add: collect_bins_ids R_def)
qed

section \<open>The route in floating-point arithmetic\<close>

lemma find_best_fl_raise:
  assumes "fl_distance ops (fst cur) (snd cur) (rb_latitude b) (rb_longitude b) = Inl e"
  shows "find_best_fl ops cur (b # rest) best = Inl e"
  using assms by simp

lemma find_best_fl_Cons:
  assumes d: "fl_distance ops (fst cur) (snd cur) (rb_latitude b) (rb_longitude b) = Inr d"
  shows "\<exists>r. find_best_fl ops cur (b # rest) best = find_best_fl ops cur rest (Some r)
             \<and> (best = Some r \<or> (fst r = b \<and> snd (snd r) = d))"
proof -
  define score where "score = fl_score ops (rb_priority_score b) d"
  show ?thesis
  proof (cases best)
    case None
    with d have "find_best_fl ops cur (b # rest) best = find_best_fl ops cur rest (Some (b, score, d))"
      by (simp add: Let_def score_def)
    then show ?thesis by (intro exI [of _ "(b, score, d)"]) simp
  next
    case (Some t)
    obtain bb bs bd where t: "t = (bb, bs, bd)" by (cases t)
    show ?thesis
    proof (cases "bs < score")
      case True
      with Some t d have "find_best_fl ops cur (b # rest) best = find_best_fl ops cur rest (Some (b, score, d))"
        by (simp add: Let_def score_def)
      then show ?thesis by (intro exI [of _ "(b, score, d)"]) simp
    next
      case False
      with Some t d have "find_best_fl ops cur (b # rest) best = find_best_fl ops cur rest (Some t)"
        by (simp add: Let_def score_def)
      with Some show ?thesis by (intro exI [of _ t]) simp
    qed
  qed
qed

lemma find_best_fl_cases:
  "(\<exists>e. fl_distance ops (fst cur) (snd cur) (rb_latitude b) (rb_longitude b) = Inl e
         \<and> find_best_fl ops cur (b # rest) best = Inl e)
   \<or> (\<exists>d r. fl_distance ops (fst cur) (snd cur) (rb_latitude b) (rb_longitude b) = Inr d
         \<and> find_best_fl ops cur (b # rest) best = find_best_fl ops cur rest (Some r)
         \<and> (best = Some r \<or> (fst r = b \<and> snd (snd r) = d)))"
proof (cases "fl_distance ops (fst cur) (snd cur) (rb_latitude b) (rb_longitude b)")
  case (Inl e)
  with find_best_fl_raise [OF Inl] show ?thesis by blast
next
  case (Inr d)
  with find_best_fl_Cons [OF Inr] show ?thesis by blast
qed

lemma find_best_fl_split:
  obtains (raise) e where "find_best_fl ops cur (b # rest) best = Inl e"
  | (go) d r where
      "fl_distance ops (fst cur) (snd cur) (rb_latitude b) (rb_longitude b) = Inr d"
      "find_best_fl ops cur (b # rest) best = find_best_fl ops cur rest (Some r)"
      "best = Some r \<or> (fst r = b \<and> snd (snd r) = d)"
  using find_best_fl_cases [of ops cur b rest best] by blast

lemma find_best_fl_not_None':
  "find_best_fl ops cur bs (Some r) \<noteq> Inr None"
proof (induction bs arbitrary: r)
  case Nil
  show ?case by simp
next
  case (Cons b bs)
  show ?case
  proof (cases rule: find_best_fl_split [of ops cur b bs "Some r"])
    case (raise e)
    show ?thesis unfolding raise by simp
  next
    case (go d r')
    show ?thesis unfolding go(2) by (rule Cons.IH)
  qed
qed

lemma find_best_fl_not_None:
  assumes "bs \<noteq> []"
  shows "find_best_fl ops cur bs None \<noteq> Inr None"
proof -
  from assms obtain b rest where bs: "bs = b # rest" by (cases bs) auto
  show ?thesis unfolding bs
  proof (cases rule: find_best_fl_split [of ops cur b rest None])
    case (raise e)
    show "find_best_fl ops cur (b # rest) None \<noteq> Inr None" unfolding raise by simp
  next
    case (go d r')
    show "find_best_fl ops cur (b # rest) None \<noteq> Inr None"
      unfolding go(2) by (rule find_best_fl_not_None')
  qed
qed

lemma find_best_fl_entry:
  "find_best_fl ops cur bs best = Inr (Some r) \<Longrightarrow>
   best = Some r
   \<or> (fst r \<in> set bs
      \<and> fl_distance ops (fst cur) (snd cur) (rb_latitude (fst r)) (rb_longitude (fst r))
          = Inr (snd (snd r)))"
proof (induction bs arbitrary: best)
  case Nil
  then show ?case by simp
next
  case (Cons b bs)
  show ?case
  proof (cases rule: find_best_fl_split [of ops cur b bs best])
    case (raise e)
    with Cons.prems have False by (simp only: sum.distinct)
    then show ?thesis ..
  next
    case (go d r')
    from Cons.prems have "find_best_fl ops cur bs (Some r') = Inr (Some r)"
      unfolding go(2) .
    from Cons.IH [OF this]
    have "Some r' = Some r
          \<or> (fst r \<in> set bs
             \<and> fl_distance ops (fst cur) (snd cur) (rb_latitude (fst r)) (rb_longitude (fst r))
                 = Inr (snd (snd r)))" .
    then show ?thesis
    proof
      assume "Some r' = Some r"
      then have rr: "r' = r" by simp
      from go(3) show ?thesis
      proof
        assume "best = Some r'"
        with rr show ?thesis by simp
      next
        assume "fst r' = b \<and> snd (snd r') = d"
        with rr go(1) show ?thesis by simp
      qed
    next
      assume "fst r \<in> set bs
             \<and> fl_distance ops (fst cur) (snd cur) (rb_latitude (fst r)) (rb_longitude (fst r))
                 = Inr (snd (snd r))"
      then show ?thesis by simp
    qed
  qed
qed

lemma find_best_fl_returns:
  "list_all (distance_ok ops cur) bs \<Longrightarrow> \<exists>res. find_best_fl ops cur bs best = Inr res"
proof (induction bs arbitrary: best)
  case Nil
  show ?case by simp
next
  case (Cons b bs)
  from Cons.prems have ok: "distance_ok ops cur b" and rest: "list_all (distance_ok ops cur) bs"
    by simp_all
  from ok obtain d where "fl_distance ops (fst cur) (snd cur) (rb_latitude b) (rb_longitude b) = Inr d"
    by (auto simp: distance_ok_def split: sum.splits)
  from find_best_fl_Cons [OF this, of bs best]
  obtain r where "find_best_fl ops cur (b # bs) best = find_best_fl ops cur bs (Some r)" by blast
  then show ?case using Cons.IH [OF rest, of "Some r"] by (simp only:)
qed

termination nearest_neighbor_loop_fl
proof (relation "measure (\<lambda>(ops, cur, remaining_bins, route, tot). length remaining_bins)")
  show "wf (measure (\<lambda>(ops :: float_ops, cur :: real \<times> real, remaining_bins :: route_bin list,
                        route :: route_stop list, tot :: real). length remaining_bins))"
    by simp
next
  fix ops :: float_ops and cur :: "real \<times> real" and remaining_bins :: "route_bin list"
    and optimized_route :: "route_stop list" and total_distance :: real
    and best :: "(route_bin \<times> real \<times> real) option"
  assume "remaining_bins \<noteq> []" "find_best_fl ops cur remaining_bins None = Inr best" "best = None"
  then show "((ops, cur, remaining_bins, optimized_route, total_distance),
              (ops, cur, remaining_bins, optimized_route, total_distance))
             \<in> measure (\<lambda>(ops, cur, remaining_bins, route, tot). length remaining_bins)"
    using find_best_fl_not_None [of remaining_bins ops cur] by simp
next
  fix ops :: float_ops and cur :: "real \<times> real" and remaining_bins :: "route_bin list"
    and optimized_route :: "route_stop list" and total_distance :: real
    and best :: "(route_bin \<times> real \<times> real) option"
    and x2 best_bin y best_score best_distance
  assume ne: "remaining_bins \<noteq> []"
    and fb: "find_best_fl ops cur remaining_bins None = Inr best"
    and b: "best = Some x2" and x2: "(best_bin, y) = x2" and y: "(best_score, best_distance) = y"
  from find_best_fl_entry [of ops cur remaining_bins None x2] fb b x2
  have "best_bin \<in> set remaining_bins" by auto
  then have "length (remove1 best_bin remaining_bins) < length remaining_bins"
    by (simp add: length_remove1) (use ne in \<open>cases remaining_bins; simp\<close>)
  then show "((ops, (rb_latitude best_bin, rb_longitude best_bin),
               remove1 best_bin remaining_bins,
               optimized_route @ [make_stop (length optimized_route + 1) best_bin best_distance],
               fl_add ops total_distance best_distance),
              (ops, cur, remaining_bins, optimized_route, total_distance))
             \<in> measure (\<lambda>(ops, cur, remaining_bins, route, tot). length remaining_bins)"
    by simp
qed

lemma loop_fl_Nil [simp]: "nearest_neighbor_loop_fl ops cur [] route tot = Inr (route, tot)"
  by (subst nearest_neighbor_loop_fl.simps) simp

lemma loop_fl_step:
  assumes "remaining \<noteq> []" "find_best_fl ops cur remaining None = Inr (Some (b, s, d))"
  shows "nearest_neighbor_loop_fl ops cur remaining route tot =
           nearest_neighbor_loop_fl ops (rb_latitude b, rb_longitude b) (remove1 b remaining)
             (route @ [make_stop (length route + 1) b d]) (fl_add ops tot d)"
  by (subst nearest_neighbor_loop_fl.simps) (simp add: assms)

lemma loop_fl_raise:
  assumes "remaining \<noteq> []" "find_best_fl ops cur remaining None = Inl e"
  shows "nearest_neighbor_loop_fl ops cur remaining route tot = Inl e"
  by (subst nearest_neighbor_loop_fl.simps) (simp add: assms)

lemma find_best_fl_None_result:
  assumes "remaining \<noteq> []"
  shows "(\<exists>e. find_best_fl ops cur remaining None = Inl e)
         \<or> (\<exists>b s d. find_best_fl ops cur remaining None = Inr (Some (b, s, d))
               \<and> b \<in> set remaining
               \<and> fl_distance ops (fst cur) (snd cur) (rb_latitude b) (rb_longitude b) = Inr d)"
proof (cases "find_best_fl ops cur remaining None")
  case (Inl e)
  then show ?thesis by blast
next
  case (Inr best)
  with find_best_fl_not_None [OF assms, of ops cur] obtain r where r: "best = Some r"
    by (cases best) auto
  obtain b s d where t: "r = (b, s, d)" by (cases r)
  from find_best_fl_entry [of ops cur remaining None r] Inr r t
  have "b \<in> set remaining"
    "fl_distance ops (fst cur) (snd cur) (rb_latitude b) (rb_longitude b) = Inr d"
    by auto
  with Inr r t show ?thesis by blast
qed

lemma loop_fl_result:
  "nearest_neighbor_loop_fl ops cur remaining route tot = Inr (route', tot') \<Longrightarrow>
   \<exists>new hops. route' = route @ new
     \<and> hop_results ops cur new = map Inr hops
     \<and> tot' = foldl (fl_add ops) tot hops
     \<and> map s_distance_from_previous new = map (\<lambda>d. py_round d 2) hops
     \<and> mset (map stop_fields new) = mset (map bin_fields remaining)
     \<and> map s_sequence new = [length route + 1 ..< length route + 1 + length remaining]"
proof (induction ops cur remaining route tot rule: nearest_neighbor_loop_fl.induct)
  case (1 ops cur remaining route tot)
  show ?case
  proof (cases "remaining = []")
    case True
    with "1.prems" have "route' = route" "tot' = tot" by simp_all
    then show ?thesis using True by (intro exI [of _ "[]"]) simp
  next
    case False
    from find_best_fl_None_result [OF False, of ops cur]
    consider (raise) e where "find_best_fl ops cur remaining None = Inl e"
      | (pick) b s d where "find_best_fl ops cur remaining None = Inr (Some (b, s, d))"
          "b \<in> set remaining"
          "fl_distance ops (fst cur) (snd cur) (rb_latitude b) (rb_longitude b) = Inr d"
      by blast
    then show ?thesis
    proof cases
      case (raise e)
      from loop_fl_raise [OF False raise, of route tot] "1.prems" show ?thesis by simp
    next
      case (pick b s d)
      define stop where "stop = make_stop (length route + 1) b d"
      have run: "nearest_neighbor_loop_fl ops (rb_latitude b, rb_longitude b) (remove1 b remaining)
                   (route @ [stop]) (fl_add ops tot d) = Inr (route', tot')"
        using loop_fl_step [OF False pick(1), of route tot] "1.prems" by (simp add: stop_def)
      from "1.IH"(2) [OF False pick(1) refl refl refl run [unfolded stop_def]]
      obtain new hops where
        n1: "route' = (route @ [stop]) @ new"
        and n2: "hop_results ops (rb_latitude b, rb_longitude b) new = map Inr hops"
        and n3: "tot' = foldl (fl_add ops) (fl_add ops tot d) hops"
        and n4: "map s_distance_from_previous new = map (\<lambda>d. py_round d 2) hops"
        and n5: "mset (map stop_fields new) = mset (map bin_fields (remove1 b remaining))"
        and n6: "map s_sequence new
                   = [length (route @ [stop]) + 1 ..<
                        length (route @ [stop]) + 1 + length (remove1 b remaining)]"
        unfolding stop_def by blast
      have c1: "route' = route @ (stop # new)" using n1 by simp
      have c2: "hop_results ops cur (stop # new) = map Inr (d # hops)"
        using n2 pick(3) by (simp add: stop_def)
      have c3: "tot' = foldl (fl_add ops) tot (d # hops)" using n3 by simp
      have c4: "map s_distance_from_previous (stop # new) = map (\<lambda>d. py_round d 2) (d # hops)"
        using n4 by (simp add: stop_def)
      have "mset (map bin_fields remaining)
              = add_mset (bin_fields b) (mset (map bin_fields (remove1 b remaining)))"
        using pick(2) by (metis image_mset_add_mset insert_DiffM mset_map mset_remove1 set_mset_mset)
      then have c5: "mset (map stop_fields (stop # new)) = mset (map bin_fields remaining)"
        using n5 by (simp add: stop_def)
      obtain n where n: "length remaining = Suc n"
        using False by (cases remaining) auto
      have len: "length (remove1 b remaining) = n"
        using pick(2) n by (simp add: length_remove1)
      have "[length route + 1 ..< length route + 1 + length remaining]
              = (length route + 1) # [length route + 2 ..< length route + 2 + n]"
        unfolding n by (simp add: upt_conv_Cons)
      moreover have "map s_sequence new = [length route + 2 ..< length route + 2 + n]"
        using n6 len by simp
      ultimately have c6: "map s_sequence (stop # new)
                   = [length route + 1 ..< length route + 1 + length remaining]"
        by (simp add: stop_def)
      from c1 c2 c3 c4 c5 c6 show ?thesis by blast
    qed
  qed
qed

lemma loop_fl_returns:
  assumes "cur \<in> P" "(\<lambda>b. (rb_latitude b, rb_longitude b)) ` set remaining \<subseteq> P"
    and "\<forall>p \<in> P. \<forall>b \<in> set remaining. distance_ok ops p b"
  shows "\<exists>res. nearest_neighbor_loop_fl ops cur remaining route tot = Inr res"
  using assms
proof (induction ops cur remaining route tot rule: nearest_neighbor_loop_fl.induct)
  case (1 ops cur remaining route tot)
  show ?case
  proof (cases "remaining = []")
    case True
    then show ?thesis by simp
  next
    case False
    have "list_all (distance_ok ops cur) remaining"
      using "1.prems"(1,3) by (simp add: list_all_iff)
    from find_best_fl_returns [OF this, of None]
    obtain res where res: "find_best_fl ops cur remaining None = Inr res" ..
    from find_best_fl_None_result [OF False, of ops cur]
    consider (raise) e where "find_best_fl ops cur remaining None = Inl e"
      | (pick) b s d where "find_best_fl ops cur remaining None = Inr (Some (b, s, d))"
          "b \<in> set remaining"
          "fl_distance ops (fst cur) (snd cur) (rb_latitude b) (rb_longitude b) = Inr d"
      by blast
    then show ?thesis
    proof cases
      case (raise e)
      with res show ?thesis by simp
    next
      case (pick b s d)
      have sub: "set (remove1 b remaining) \<subseteq> set remaining" by (rule set_remove1_subset)
      have p1: "(rb_latitude b, rb_longitude b) \<in> P" using pick(2) "1.prems"(2) by auto
      have p2: "(\<lambda>b. (rb_latitude b, rb_longitude b)) ` set (remove1 b remaining) \<subseteq> P"
        using sub "1.prems"(2) by blast
      have p3: "\<forall>p \<in> P. \<forall>b' \<in> set (remove1 b remaining). distance_ok ops p b'"
        using sub "1.prems"(3) by blast
      from "1.IH"(2) [OF False pick(1) refl refl refl p1 p2 p3]
      show ?thesis unfolding loop_fl_step [OF False pick(1)] .
    qed
  qed
qed

text \<open>In exact arithmetic the parametrised functions are the ones defined first.\<close>

lemma find_best_fl_exact: "find_best_fl exact_ops cur bs best = Inr (find_best cur bs best)"
proof (induction bs arbitrary: best)
  case Nil
  show ?case by simp
next
  case (Cons b bs)
  show ?case
    by (simp only: find_best_fl.simps find_best.simps exact_ops_simps sum.case Let_def Cons.IH)
qed

lemma loop_fl_exact:
  "nearest_neighbor_loop_fl exact_ops cur remaining route tot
     = Inr (nearest_neighbor_loop cur remaining route tot)"
proof (induction cur remaining route tot rule: nearest_neighbor_loop.induct)
  case (1 cur remaining route tot)
  show ?case
  proof (cases "remaining = []")
    case True
    then show ?thesis by simp
  next
    case False
    then obtain r where r: "find_best cur remaining None = Some r"
      using find_best_Some [of remaining cur] by auto
    obtain b y where rb: "(b, y) = r" by (cases r) auto
    obtain s d where sd: "(s, d) = y" by (cases y) auto
    have fb: "find_best cur remaining None = Some (b, s, d)" using r rb sd by simp
    then have fbe: "find_best_fl exact_ops cur remaining None = Inr (Some (b, s, d))"
      by (simp add: find_best_fl_exact)
    from "1.IH"(2) [OF False r rb sd]
    show ?thesis
      unfolding loop_fl_step [OF False fbe] loop_step [OF False fb] by simp
  qed
qed

lemma optimize_route_fl_exact:
  "optimize_route_fl exact_ops db bin_ids start = Inr (optimize_route db bin_ids start)"
  unfolding optimize_route_fl_def optimize_route_def loop_fl_exact
  by (simp add: Let_def split_beta del: nearest_neighbor_loop.simps)

lemma optimize_route_fl_empty:
  "collect_bins db bin_ids = [] \<Longrightarrow> optimize_route_fl ops db bin_ids start = Inr empty_route"
  by (simp add: optimize_route_fl_def Let_def)

lemma optimize_route_fl_unfold:
  assumes "collect_bins db bin_ids \<noteq> []"
    and "starting_point (collect_bins db bin_ids) start = (bins', cur)"
  shows "optimize_route_fl ops db bin_ids start =
           (case nearest_neighbor_loop_fl ops cur bins' [] 0 of
              Inl e \<Rightarrow> Inl e
            | Inr (route, tot) \<Rightarrow>
                Inr \<lparr> r_bins = route,
                      r_total_bins = Some (length route),
                      r_total_distance = py_round tot 2,
                      r_optimization_method = ''nearest_neighbor_priority_weighted'',
                      r_average_waste_level =
                        Some (if route \<noteq> []
                              then py_round (fl_div ops (fl_sum ops (map s_waste_level route))
                                               (real (length route))) 2
                              else 0) \<rparr>)"
proof -
  from assms(1) have "bin_ids \<noteq> []" by auto
  with assms show ?thesis
    by (simp add: optimize_route_fl_def Let_def del: nearest_neighbor_loop_fl.simps)
qed

lemma optimize_route_fl_Inr:
  assumes ne: "collect_bins db bin_ids \<noteq> []"
    and sp: "starting_point (collect_bins db bin_ids) start = (bins', cur)"
    and run: "optimize_route_fl ops db bin_ids start = Inr R"
  shows "\<exists>route tot. nearest_neighbor_loop_fl ops cur bins' [] 0 = Inr (route, tot)
           \<and> r_bins R = route
           \<and> r_total_distance R = py_round tot 2
           \<and> r_average_waste_level R =
               Some (if route \<noteq> []
                     then py_round (fl_div ops (fl_sum ops (map s_waste_level route))
                                      (real (length route))) 2
                     else 0)"
proof (cases "nearest_neighbor_loop_fl ops cur bins' [] 0")
  case (Inl e)
  with run show ?thesis unfolding optimize_route_fl_unfold [OF ne sp] by simp
next
  case (Inr res)
  obtain route tot where res: "res = (route, tot)" by (cases res)
  from run have "R = \<lparr> r_bins = route,
                      r_total_bins = Some (length route),
                      r_total_distance = py_round tot 2,
                      r_optimization_method = ''nearest_neighbor_priority_weighted'',
                      r_average_waste_level =
                        Some (if route \<noteq> []
                              then py_round (fl_div ops (fl_sum ops (map s_waste_level route))
                                               (real (length route))) 2
                              else 0) \<rparr>"
    unfolding optimize_route_fl_unfold [OF ne sp] Inr res by simp
  then have "r_bins R = route" "r_total_distance R = py_round tot 2"
    "r_average_waste_level R =
               Some (if route \<noteq> []
                     then py_round (fl_div ops (fl_sum ops (map s_waste_level route))
                                      (real (length route))) 2
                     else 0)"
    by simp_all
  with Inr res show ?thesis by blast
qed

lemma starting_point_cur:
  assumes "bins \<noteq> []" "starting_point bins start = (bins', cur)"
  shows "cur \<in> set (route_points bins start) \<and> set bins' = set bins"
proof (cases start)
  case None
  have "py_sort_reverse rb_priority_score bins \<noteq> []" using assms(1) by simp
  then have "hd (py_sort_reverse rb_priority_score bins) \<in> set (py_sort_reverse rb_priority_score bins)"
    by (rule hd_in_set)
  moreover have "set (py_sort_reverse rb_priority_score bins) = set bins"
    by (metis mset_py_sort_reverse set_mset_mset)
  ultimately show ?thesis using assms(2) None
    by (auto simp: starting_point_def Let_def route_points_def)
next
  case (Some p)
  with assms(2) show ?thesis by (auto simp: starting_point_def route_points_def)
qed

lemma optimize_route_fl_returns:
  assumes "distances_defined ops (collect_bins db bin_ids) start"
  shows "\<exists>R. optimize_route_fl ops db bin_ids start = Inr R"
proof (cases "collect_bins db bin_ids = []")
  case True
  then show ?thesis by (simp add: optimize_route_fl_empty)
next
  case False
  obtain bins' cur where sp: "starting_point (collect_bins db bin_ids) start = (bins', cur)"
    by (cases "starting_point (collect_bins db bin_ids) start")
  define P where "P = set (route_points (collect_bins db bin_ids) start)"
  from starting_point_cur [OF False sp]
  have c: "cur \<in> P" and s: "set bins' = set (collect_bins db bin_ids)" by (simp_all add: P_def)
  have p2: "(\<lambda>b. (rb_latitude b, rb_longitude b)) ` set bins' \<subseteq> P"
    unfolding s P_def by (auto simp: route_points_def)
  have p3: "\<forall>p \<in> P. \<forall>b \<in> set bins'. distance_ok ops p b"
    using assms unfolding s P_def by (simp add: distances_defined_def list_all_iff)
  from loop_fl_returns [OF c p2 p3, of "[]" 0]
  obtain res where res: "nearest_neighbor_loop_fl ops cur bins' [] 0 = Inr res" ..
  obtain route tot where "res = (route, tot)" by (cases res)
  with res show ?thesis unfolding optimize_route_fl_unfold [OF False sp] by simp
qed

lemma route_fl_stops:
  assumes ne: "collect_bins db bin_ids \<noteq> []"
    and sp: "starting_point (collect_bins db bin_ids) start = (bins', cur)"
    and run: "optimize_route_fl ops db bin_ids start = Inr R"
  shows "\<exists>hops. hop_results ops cur (r_bins R) = map Inr hops
           \<and> r_total_distance R = py_round (foldl (fl_add ops) 0 hops) 2
           \<and> map s_distance_from_previous (r_bins R) = map (\<lambda>d. py_round d 2) hops"
    and "mset (map stop_fields (r_bins R)) = mset (map bin_fields (collect_bins db bin_ids))"
    and "r_average_waste_level R
           = Some (py_round (fl_div ops (fl_sum ops (map s_waste_level (r_bins R)))
                              (real (length (r_bins R)))) 2)"
    and "r_bins R \<noteq> []"
proof -
  from optimize_route_fl_Inr [OF ne sp run] obtain route tot where
    l: "nearest_neighbor_loop_fl ops cur bins' [] 0 = Inr (route, tot)"
    and r: "r_bins R = route" and t: "r_total_distance R = py_round tot 2"
    and a: "r_average_waste_level R =
               Some (if route \<noteq> []
                     then py_round (fl_div ops (fl_sum ops (map s_waste_level route))
                                      (real (length route))) 2
                     else 0)"
    by blast
  from loop_fl_result [OF l] obtain new hops where
    l0: "route = new"
    and l1: "hop_results ops cur new = map Inr hops"
    and l2: "tot = foldl (fl_add ops) 0 hops"
    and l3: "map s_distance_from_previous new = map (\<lambda>d. py_round d 2) hops"
    and l4: "mset (map stop_fields new) = mset (map bin_fields bins')"
    by auto
  have m: "mset bins' = mset (collect_bins db bin_ids)" by (rule starting_point_mset [OF sp])
  have ln: "length new = length bins'" using l4 by (metis length_map size_mset)
  have "bins' \<noteq> []" using m ne by (metis mset_zero_iff)
  with ln have nn: "new \<noteq> []" by auto
  from l1 l2 l3 t show "\<exists>hops. hop_results ops cur (r_bins R) = map Inr hops
           \<and> r_total_distance R = py_round (foldl (fl_add ops) 0 hops) 2
           \<and> map s_distance_from_previous (r_bins R) = map (\<lambda>d. py_round d 2) hops"
    unfolding r l0 by blast
  show "mset (map stop_fields (r_bins R)) = mset (map bin_fields (collect_bins db bin_ids))"
    unfolding r l0 l4 using m by (metis mset_map)
  show "r_average_waste_level R
           = Some (py_round (fl_div ops (fl_sum ops (map s_waste_level (r_bins R)))
                              (real (length (r_bins R)))) 2)"
    unfolding r a l0 using nn by simp
  show "r_bins R \<noteq> []" unfolding r l0 by (rule nn)
qed

lemma route_fl_fields_mset:
  assumes "optimize_route_fl ops db bin_ids start = Inr R"
  shows "mset (map stop_fields (r_bins R)) = mset (map bin_fields (collect_bins db bin_ids))"
proof (cases "collect_bins db bin_ids = []")
  case True
  with assms have "R = empty_route" by (simp add: optimize_route_fl_empty)
  with True show ?thesis by (simp add: empty_route_def)
next
  case False
  obtain bins' cur where "starting_point (collect_bins db bin_ids) start = (bins', cur)"
    by (cases "starting_point (collect_bins db bin_ids) start")
  from route_fl_stops(2) [OF False this assms] show ?thesis .
qed

lemma route_fl_ids_mset:
  assumes "optimize_route_fl ops db bin_ids start = Inr R"
  shows "mset (map s_bin_id (r_bins R)) = mset (filter (routable db) bin_ids)"
proof -
  have "mset (map s_bin_id (r_bins R)) = image_mset fst (mset (map stop_fields (r_bins R)))"
    by (simp add: stop_fields_def multiset.map_comp comp_def)
  also have "\<dots> = image_mset fst (mset (map bin_fields (collect_bins db bin_ids)))"
    by (simp only: route_fl_fields_mset [OF assms])
  also have "\<dots> = mset (map rb_bin_id (collect_bins db bin_ids))"
    by (simp add: bin_fields_def multiset.map_comp comp_def)
  finally show ?thesis by (simp add: collect_bins_ids)
qed

lemma stop_fields_origin:
  assumes "stop_fields s \<in> set (map bin_fields (collect_bins db bin_ids))"
  shows "s_bin_id s \<in> set bin_ids
         \<and> (\<exists>row. get_bin_by_id db (s_bin_id s) = Some row
                   \<and> latitude row = Some (s_latitude s) \<and> longitude row = Some (s_longitude s)
                   \<and> s_bin_code s = bin_code row \<and> s_location s = location row
                   \<and> s_waste_level s = waste_level row)"
proof -
  from assms obtain b where b: "b \<in> set (collect_bins db bin_ids)" and sf: "stop_fields s = bin_fields b"
    by auto
  from collect_bins_origin [OF b] obtain i row where
    i: "i \<in> set bin_ids" and row: "get_bin_by_id db i = Some row" and rb: "route_bin_of row = Some b"
    by blast
  from rb have t: "truthy (latitude row)" "truthy (longitude row)"
    and bb: "rb_bin_id b = bin_id row" "rb_bin_code b = bin_code row" "rb_location b = location row"
      "rb_latitude b = the (latitude row)" "rb_longitude b = the (longitude row)"
      "rb_waste_level b = waste_level row"
    by (simp_all add: route_bin_of_Some)
  from t have ll: "latitude row = Some (the (latitude row))" "longitude row = Some (the (longitude row))"
    by (auto simp: truthy_def split: option.splits)
  from sf bb have ss: "s_bin_id s = bin_id row" "s_bin_code s = bin_code row"
    "s_location s = location row" "s_latitude s = the (latitude row)"
    "s_longitude s = the (longitude row)" "s_waste_level s = waste_level row"
    by (simp_all add: stop_fields_def bin_fields_def)
  from get_bin_by_id_Some [OF row] have "bin_id row = i" by simp
  with ss i row ll show ?thesis by simp
qed

lemma distances_defined_exact_distance:
  "fl_distance ops = fl_distance exact_ops \<Longrightarrow> distances_defined ops bins start"
  by (simp add: distances_defined_def distance_ok_def list_all_iff)

lemma antipodal_route_raises:
  "optimize_route_fl raising_sqrt_ops antipodal_db [1, 2] None = Inl ValueError"
proof -
  define b1 where "b1 = \<lparr> rb_bin_id = 1, rb_bin_code = ''A1'', rb_location = ''West'',
      rb_latitude = 8, rb_longitude = - 7, rb_waste_level = 50, rb_priority_score = 20 \<rparr>"
  define b2 where "b2 = \<lparr> rb_bin_id = 2, rb_bin_code = ''A2'', rb_location = ''East'',
      rb_latitude = - 8, rb_longitude = 173, rb_waste_level = 50, rb_priority_score = 20 \<rparr>"
  have c: "collect_bins antipodal_db [1, 2] = [b1, b2]"
    by (simp add: get_bin_by_id_def antipodal_db_def route_bin_of_def get_bin_priority_score_def
        b1_def b2_def)
  have ne: "collect_bins antipodal_db [1, 2] \<noteq> []" unfolding c by simp
  have s: "py_sort_reverse rb_priority_score [b1, b2] = [b1, b2]"
    by (simp add: py_sort_reverse_def b1_def b2_def)
  have sp: "starting_point (collect_bins antipodal_db [1, 2]) None = ([b1, b2], (8, - 7))"
    unfolding c by (simp add: starting_point_def Let_def s) (simp add: b1_def)
  have d1: "fl_distance raising_sqrt_ops 8 (- 7) (rb_latitude b1) (rb_longitude b1) = Inr 0"
    by (simp add: raising_sqrt_ops_def b1_def)
  have d2: "fl_distance raising_sqrt_ops 8 (- 7) (rb_latitude b2) (rb_longitude b2) = Inl ValueError"
    by (simp add: raising_sqrt_ops_def b2_def)
  have "find_best_fl raising_sqrt_ops (8, - 7) [b1, b2] None = Inl ValueError"
    by (simp add: d1 d2 Let_def)
  from loop_fl_raise [OF _ this, of "[]" 0]
  have "nearest_neighbor_loop_fl raising_sqrt_ops (8, - 7) [b1, b2] [] 0 = Inl ValueError"
    by simp
  then show ?thesis unfolding optimize_route_fl_unfold [OF ne sp] by simp
qed

section \<open>Properties of route_optimizer.py\<close>

text \<open>
  C1, as the code has it, in every arithmetic. If no listed bin passes the coordinate
  test the call returns the empty route, and if \<open>calculate_distance\<close> succeeds from the
  start location and from every kept bin to every kept bin the call returns a route: a
  bin without coordinates never makes it raise. Whenever the call returns, a bin id
  whose bin exists and has both coordinates present and not zero occurs among the stops
  as often as it occurs in the input list (once when it is listed once); a bin that lacks
  a coordinate, or that does not exist, yields no stop; and every stop is an entry of the
  input list and carries the fields of the row of its own bin.
\<close>

theorem route_visits_routable_bins_once:
  "(filter (routable db) bin_ids = []
      \<longrightarrow> optimize_route_fl ops db bin_ids start = Inr empty_route)
   \<and> (distances_defined ops (collect_bins db bin_ids) start
      \<longrightarrow> (\<exists>R. optimize_route_fl ops db bin_ids start = Inr R))
   \<and> (\<forall>R. optimize_route_fl ops db bin_ids start = Inr R \<longrightarrow>
        (\<forall>i row la lo.
            get_bin_by_id db i = Some row \<and> latitude row = Some la \<and> longitude row = Some lo
            \<and> la \<noteq> 0 \<and> lo \<noteq> 0
            \<longrightarrow> count_list (map s_bin_id (r_bins R)) i = count_list bin_ids i)
        \<and> (\<forall>i row. get_bin_by_id db i = Some row \<and> (latitude row = None \<or> longitude row = None)
              \<longrightarrow> i \<notin> set (map s_bin_id (r_bins R)))
        \<and> (\<forall>i. get_bin_by_id db i = None \<longrightarrow> i \<notin> set (map s_bin_id (r_bins R)))
        \<and> (\<forall>s \<in> set (r_bins R).
              s_bin_id s \<in> set bin_ids
              \<and> (\<exists>row. get_bin_by_id db (s_bin_id s) = Some row
                        \<and> latitude row = Some (s_latitude s) \<and> longitude row = Some (s_longitude s)
                        \<and> s_bin_code s = bin_code row \<and> s_location s = location row
                        \<and> s_waste_level s = waste_level row)))"
proof -
  have A: "filter (routable db) bin_ids = []
      \<longrightarrow> optimize_route_fl ops db bin_ids start = Inr empty_route"
    by (simp add: optimize_route_fl_empty collect_bins_empty_iff)
  have B: "distances_defined ops (collect_bins db bin_ids) start
      \<longrightarrow> (\<exists>R. optimize_route_fl ops db bin_ids start = Inr R)"
    using optimize_route_fl_returns by blast
  have C: "(\<forall>i row la lo.
            get_bin_by_id db i = Some row \<and> latitude row = Some la \<and> longitude row = Some lo
            \<and> la \<noteq> 0 \<and> lo \<noteq> 0
            \<longrightarrow> count_list (map s_bin_id (r_bins R)) i = count_list bin_ids i)
        \<and> (\<forall>i row. get_bin_by_id db i = Some row \<and> (latitude row = None \<or> longitude row = None)
              \<longrightarrow> i \<notin> set (map s_bin_id (r_bins R)))
        \<and> (\<forall>i. get_bin_by_id db i = None \<longrightarrow> i \<notin> set (map s_bin_id (r_bins R)))
        \<and> (\<forall>s \<in> set (r_bins R).
              s_bin_id s \<in> set bin_ids
              \<and> (\<exists>row. get_bin_by_id db (s_bin_id s) = Some row
                        \<and> latitude row = Some (s_latitude s) \<and> longitude row = Some (s_longitude s)
                        \<and> s_bin_code s = bin_code row \<and> s_location s = location row
                        \<and> s_waste_level s = waste_level row))"
    if run: "optimize_route_fl ops db bin_ids start = Inr R" for R
  proof -
    have ids: "mset (map s_bin_id (r_bins R)) = mset (filter (routable db) bin_ids)"
      by (rule route_fl_ids_mset [OF run])
    then have sub: "set (map s_bin_id (r_bins R)) = set (filter (routable db) bin_ids)"
      by (metis set_mset_mset)
    have once: "count_list (map s_bin_id (r_bins R)) i = count_list bin_ids i"
      if "get_bin_by_id db i = Some row \<and> latitude row = Some la \<and> longitude row = Some lo
          \<and> la \<noteq> 0 \<and> lo \<noteq> 0" for i row la lo
    proof -
      from that have r: "routable db i" by (auto simp: routable_iff)
      have "count_list (map s_bin_id (r_bins R)) i = count (mset (filter (routable db) bin_ids)) i"
        by (simp only: ids flip: count_mset)
      also have "\<dots> = count_list bin_ids i" using r by (simp add: count_mset)
      finally show ?thesis .
    qed
    have none: "i \<notin> set (map s_bin_id (r_bins R))"
      if "get_bin_by_id db i = Some row \<and> (latitude row = None \<or> longitude row = None)" for i row
      using that unfolding sub by (auto simp: routable_def truthy_def)
    have missing: "i \<notin> set (map s_bin_id (r_bins R))" if "get_bin_by_id db i = None" for i
      using that unfolding sub by (auto simp: routable_def)
    have stops: "s_bin_id s \<in> set bin_ids
            \<and> (\<exists>row. get_bin_by_id db (s_bin_id s) = Some row
                      \<and> latitude row = Some (s_latitude s) \<and> longitude row = Some (s_longitude s)
                      \<and> s_bin_code s = bin_code row \<and> s_location s = location row
                      \<and> s_waste_level s = waste_level row)"
      if "s \<in> set (r_bins R)" for s
    proof -
      from that have "stop_fields s \<in> set (map stop_fields (r_bins R))" by simp
      then have "stop_fields s \<in> set (map bin_fields (collect_bins db bin_ids))"
        by (metis route_fl_fields_mset [OF run] set_mset_mset)
      then show ?thesis by (rule stop_fields_origin)
    qed
    from once none missing stops show ?thesis by blast
  qed
  from A B C show ?thesis by blast
qed

theorem route_visits_routable_bins_once_witness:
  "optimize_route_fl exact_ops mixed_db [3, 2, 1, 3] None
     = Inr (optimize_route mixed_db [3, 2, 1, 3] None)
   \<and> count_list (map s_bin_id (r_bins (optimize_route mixed_db [3, 2, 1, 3] None))) 1 = 1
   \<and> count_list (map s_bin_id (r_bins (optimize_route mixed_db [3, 2, 1, 3] None))) 3 = 2
   \<and> 2 \<notin> set (map s_bin_id (r_bins (optimize_route mixed_db [3, 2, 1, 3] None)))"
proof -
  have run: "optimize_route_fl exact_ops mixed_db [3, 2, 1, 3] None
               = Inr (optimize_route mixed_db [3, 2, 1, 3] None)"
    by (rule optimize_route_fl_exact)
  note th = route_visits_routable_bins_once [of mixed_db "[3, 2, 1, 3]" exact_ops None,
      THEN conjunct2, THEN conjunct2, rule_format, OF run]
  have g1: "get_bin_by_id mixed_db 1 = Some (bins_table mixed_db ! 0)
            \<and> latitude (bins_table mixed_db ! 0) = Some 1
            \<and> longitude (bins_table mixed_db ! 0) = Some 1 \<and> (1::real) \<noteq> 0 \<and> (1::real) \<noteq> 0"
    by (simp add: get_bin_by_id_def mixed_db_def)
  have g3: "get_bin_by_id mixed_db 3 = Some (bins_table mixed_db ! 2)
            \<and> latitude (bins_table mixed_db ! 2) = Some 1
            \<and> longitude (bins_table mixed_db ! 2) = Some 1 \<and> (1::real) \<noteq> 0 \<and> (1::real) \<noteq> 0"
    by (simp add: get_bin_by_id_def mixed_db_def)
  have g2: "get_bin_by_id mixed_db 2 = Some (bins_table mixed_db ! 1)
            \<and> (latitude (bins_table mixed_db ! 1) = None \<or> longitude (bins_table mixed_db ! 1) = None)"
    by (simp add: get_bin_by_id_def mixed_db_def)
  have c1: "count_list (map s_bin_id (r_bins (optimize_route mixed_db [3, 2, 1, 3] None))) 1
              = count_list [3, 2, 1, 3] (1::nat)"
    using th [THEN conjunct1, rule_format, OF g1] .
  have c3: "count_list (map s_bin_id (r_bins (optimize_route mixed_db [3, 2, 1, 3] None))) 3
              = count_list [3, 2, 1, 3] (3::nat)"
    using th [THEN conjunct1, rule_format, OF g3] .
  have n2: "2 \<notin> set (map s_bin_id (r_bins (optimize_route mixed_db [3, 2, 1, 3] None)))"
    using th [THEN conjunct2, THEN conjunct1, rule_format, OF g2] .
  from run c1 c3 n2 show ?thesis by simp
qed

text \<open>
  C1 as stated fails in three ways. A bin on the prime meridian has a valid coordinate
  pair, but the truthiness test takes its longitude 0 for absent and the route is empty.
  A bin that is listed twice is visited twice, not exactly once. And an error can be
  raised: where \<open>calculate_distance\<close> raises, as binary64 makes it do for an antipodal
  pair, the call raises.
\<close>

theorem route_once_counterexample:
  "get_bin_by_id greenwich_db 7
     = Some \<lparr> bin_id = 7, bin_code = ''G7'', location = ''Observatory'', zone = ''Greenwich'',
              latitude = Some (514779 / 10000), longitude = Some 0, waste_level = 95,
              status = ''active'' \<rparr>
   \<and> r_bins (optimize_route greenwich_db [7] None) = []
   \<and> optimize_route_fl exact_ops greenwich_db [7] None = Inr empty_route
   \<and> mset (map s_bin_id (r_bins (optimize_route mixed_db [3, 3] None))) = {#3, 3#}
   \<and> optimize_route_fl raising_sqrt_ops antipodal_db [1, 2] None = Inl ValueError"
proof -
  have f: "filter (routable mixed_db) [3, 3] = [3, 3]"
    by (simp add: routable_def get_bin_by_id_def mixed_db_def truthy_def)
  have "mset (map s_bin_id (r_bins (optimize_route mixed_db [3, 3] None)))
          = mset (filter (routable mixed_db) [3, 3])"
    by (rule route_ids_mset)
  also have "\<dots> = {#3, 3#}" unfolding f by simp
  finally have "mset (map s_bin_id (r_bins (optimize_route mixed_db [3, 3] None))) = {#3, 3#}" .
  moreover have "get_bin_by_id greenwich_db 7
     = Some \<lparr> bin_id = 7, bin_code = ''G7'', location = ''Observatory'', zone = ''Greenwich'',
              latitude = Some (514779 / 10000), longitude = Some 0, waste_level = 95,
              status = ''active'' \<rparr>"
    by (simp add: get_bin_by_id_def greenwich_db_def)
  moreover have g: "collect_bins greenwich_db [7] = []"
    by (simp add: get_bin_by_id_def greenwich_db_def route_bin_of_def)
  moreover have "r_bins (optimize_route greenwich_db [7] None) = []"
    by (simp add: optimize_route_empty [OF g] empty_route_def)
  moreover have "optimize_route_fl exact_ops greenwich_db [7] None = Inr empty_route"
    by (rule optimize_route_fl_empty [OF g])
  ultimately show ?thesis using antipodal_route_raises by simp
qed



text \<open>
  C9, as the code has it, in every arithmetic. The call returns the empty route when no
  listed bin passes the coordinate test, and a route when \<open>calculate_distance\<close> succeeds
  between the points involved. Whenever it returns: if no bin passed the test the route
  is empty and the total distance is 0; otherwise the route is not empty, the hops are
  the values \<open>calculate_distance\<close> returned along the stop sequence from the starting
  point (the start location, or the position of the first bin of highest priority score),
  the total distance is their running sum from 0 rounded to two decimals, each stop
  records its own hop rounded to two decimals, and the average waste level is the
  quotient of the sum of the stops' waste levels by their number, rounded to two
  decimals. With the binary64 quotient of 2.67 and 2.68 that average is 2.67.
\<close>

theorem route_totals_are_rounded:
  "(filter (routable db) bin_ids = []
      \<longrightarrow> optimize_route_fl ops db bin_ids start = Inr empty_route)
   \<and> (distances_defined ops (collect_bins db bin_ids) start
      \<longrightarrow> (\<exists>R. optimize_route_fl ops db bin_ids start = Inr R))
   \<and> (\<forall>R. optimize_route_fl ops db bin_ids start = Inr R \<longrightarrow>
        (filter (routable db) bin_ids = [] \<longrightarrow> r_bins R = [] \<and> r_total_distance R = 0)
        \<and> (filter (routable db) bin_ids \<noteq> [] \<longrightarrow>
             (let stops = r_bins R;
                  cur = snd (starting_point (collect_bins db bin_ids) start)
              in stops \<noteq> []
                 \<and> (\<exists>hops. hop_results ops cur stops = map Inr hops
                       \<and> r_total_distance R = py_round (foldl (fl_add ops) 0 hops) 2
                       \<and> map s_distance_from_previous stops = map (\<lambda>d. py_round d 2) hops)
                 \<and> r_average_waste_level R
                     = Some (py_round (fl_div ops (fl_sum ops (map s_waste_level stops))
                                        (real (length stops))) 2))))"
proof -
  have A: "filter (routable db) bin_ids = []
      \<longrightarrow> optimize_route_fl ops db bin_ids start = Inr empty_route"
    by (simp add: optimize_route_fl_empty collect_bins_empty_iff)
  have B: "distances_defined ops (collect_bins db bin_ids) start
      \<longrightarrow> (\<exists>R. optimize_route_fl ops db bin_ids start = Inr R)"
    using optimize_route_fl_returns by blast
  have C: "(filter (routable db) bin_ids = [] \<longrightarrow> r_bins R = [] \<and> r_total_distance R = 0)
        \<and> (filter (routable db) bin_ids \<noteq> [] \<longrightarrow>
             (let stops = r_bins R;
                  cur = snd (starting_point (collect_bins db bin_ids) start)
              in stops \<noteq> []
                 \<and> (\<exists>hops. hop_results ops cur stops = map Inr hops
                       \<and> r_total_distance R = py_round (foldl (fl_add ops) 0 hops) 2
                       \<and> map s_distance_from_previous stops = map (\<lambda>d. py_round d 2) hops)
                 \<and> r_average_waste_level R
                     = Some (py_round (fl_div ops (fl_sum ops (map s_waste_level stops))
                                        (real (length stops))) 2)))"
    if run: "optimize_route_fl ops db bin_ids start = Inr R" for R
  proof (rule conjI; rule impI)
    assume "filter (routable db) bin_ids = []"
    with A run have "R = empty_route" by simp
    then show "r_bins R = [] \<and> r_total_distance R = 0" by (simp add: empty_route_def)
  next
    assume "filter (routable db) bin_ids \<noteq> []"
    then have ne: "collect_bins db bin_ids \<noteq> []" by (simp add: collect_bins_empty_iff)
    obtain bins' cur where sp: "starting_point (collect_bins db bin_ids) start = (bins', cur)"
      by (cases "starting_point (collect_bins db bin_ids) start")
    note rs = route_fl_stops [OF ne sp run]
    from rs(1) rs(3) rs(4)
    show "let stops = r_bins R;
              cur = snd (starting_point (collect_bins db bin_ids) start)
          in stops \<noteq> []
             \<and> (\<exists>hops. hop_results ops cur stops = map Inr hops
                   \<and> r_total_distance R = py_round (foldl (fl_add ops) 0 hops) 2
                   \<and> map s_distance_from_previous stops = map (\<lambda>d. py_round d 2) hops)
             \<and> r_average_waste_level R
                 = Some (py_round (fl_div ops (fl_sum ops (map s_waste_level stops))
                                    (real (length stops))) 2)"
      unfolding Let_def sp snd_conv by simp
  qed
  from A B C show ?thesis by blast
qed

theorem route_totals_are_rounded_witness:
  "optimize_route_fl exact_ops demo_db [1, 2] None = Inr (optimize_route demo_db [1, 2] None)
   \<and> filter (routable demo_db) [1, 2] \<noteq> []
   \<and> r_total_distance (optimize_route demo_db [1, 2] None) = 0
   \<and> r_average_waste_level (optimize_route demo_db [1, 2] None) = Some 90
   \<and> (\<exists>R. optimize_route_fl binary64_mean_ops pair_db [1, 2] None = Inr R
           \<and> r_average_waste_level R = Some (267 / 100))"
proof -
  have run: "optimize_route_fl exact_ops demo_db [1, 2] None = Inr (optimize_route demo_db [1, 2] None)"
    by (rule optimize_route_fl_exact)
  have f: "filter (routable demo_db) [1, 2] \<noteq> []"
    by (simp add: routable_def get_bin_by_id_def demo_db_def truthy_def)
  have r: "py_round 90 2 = 90" using py_round_unique [of 9000 90] by simp
  note th = route_totals_are_rounded [of demo_db "[1, 2]" exact_ops None,
      THEN conjunct2, THEN conjunct2, rule_format, OF run, THEN conjunct2, rule_format, OF f,
      unfolded Let_def]
  have avg: "r_average_waste_level (optimize_route demo_db [1, 2] None) = Some 90"
    using th [THEN conjunct2, THEN conjunct2] unfolding demo_route by (simp add: r)
  have t: "r_total_distance (optimize_route demo_db [1, 2] None) = 0"
    unfolding demo_route by simp
  have dd: "distances_defined binary64_mean_ops (collect_bins pair_db [1, 2]) None"
    by (rule distances_defined_exact_distance) (simp add: binary64_mean_ops_def)
  from route_totals_are_rounded [of pair_db "[1, 2]" binary64_mean_ops None,
      THEN conjunct2, THEN conjunct1, rule_format, OF dd]
  obtain R where R: "optimize_route_fl binary64_mean_ops pair_db [1, 2] None = Inr R" ..
  have f2: "filter (routable pair_db) [1, 2] \<noteq> []"
    by (simp add: routable_def get_bin_by_id_def pair_db_def truthy_def)
  have r2: "py_round (3011782250804019 / 1125899906842624) 2 = 267 / 100"
    using py_round_unique [of 267 "3011782250804019 / 1125899906842624"] by simp
  note th2 = route_totals_are_rounded [of pair_db "[1, 2]" binary64_mean_ops None,
      THEN conjunct2, THEN conjunct2, rule_format, OF R, THEN conjunct2, rule_format, OF f2,
      unfolded Let_def]
  have "r_average_waste_level R = Some (267 / 100)"
    using th2 [THEN conjunct2, THEN conjunct2] by (simp add: binary64_mean_ops_def r2)
  with R have "\<exists>R. optimize_route_fl binary64_mean_ops pair_db [1, 2] None = Inr R
           \<and> r_average_waste_level R = Some (267 / 100)" by blast
  with run f t avg show ?thesis by simp
qed

text \<open>
  C9 as stated fails because of the rounding: three hops of \<open>pi / 800\<close> km are each
  recorded as 0.0 while the total is 0.01, and waste levels 10, 10 and 11 have mean
  \<open>31 / 3\<close> while the reported average is 10.33.
\<close>

theorem rounded_totals_counterexample:
  "r_total_distance (optimize_route meridian_db [1, 2, 3] (Some (1, 1))) = 1 / 100
   \<and> sum_list (map s_distance_from_previous
                  (r_bins (optimize_route meridian_db [1, 2, 3] (Some (1, 1))))) = 0
   \<and> r_average_waste_level (optimize_route meridian_db [1, 2, 3] (Some (1, 1))) = Some (1033 / 100)
   \<and> sum_list (map s_waste_level (r_bins (optimize_route meridian_db [1, 2, 3] (Some (1, 1)))))
       / real (length (r_bins (optimize_route meridian_db [1, 2, 3] (Some (1, 1))))) = 31 / 3"
proof -
  define la :: "nat \<Rightarrow> real" where "la k = 1 + real k * 225 / 6371000" for k
  define m :: "nat \<Rightarrow> real \<Rightarrow> route_bin" where
    "m k w = \<lparr> rb_bin_id = k, rb_bin_code = ''M'', rb_location = ''Meridian Road'',
               rb_latitude = la k, rb_longitude = 1, rb_waste_level = w,
               rb_priority_score = 20 \<rparr>" for k w
  have c: "collect_bins meridian_db [1, 2, 3] = [m 1 10, m 2 10, m 3 11]"
    by (simp add: get_bin_by_id_def meridian_db_def meridian_bin_def route_bin_of_def
        get_bin_priority_score_def m_def la_def)
  have ne: "collect_bins meridian_db [1, 2, 3] \<noteq> []" unfolding c by simp
  have la0: "la 0 = 1" by (simp add: la_def)
  have sp: "starting_point (collect_bins meridian_db [1, 2, 3]) (Some (1, 1))
              = ([m 1 10, m 2 10, m 3 11], (la 0, 1))"
    unfolding c by (simp add: starting_point_def la0)
  have dist: "bin_distance (la j, 1) (m k w) = \<bar>real k - real j\<bar> * pi / 800"
    if "j \<le> 3" "k \<le> 3" for j k w
  proof -
    have e: "la k - la j = (real k - real j) * (225 / 6371000)"
      by (simp add: la_def algebra_simps)
    have "\<bar>real k - real j\<bar> \<le> 3" using that by (simp add: abs_le_iff)
    then have "\<bar>la k - la j\<bar> < 180" unfolding e abs_mult by simp
    from calculate_distance_meridian [OF this, of 1]
    have "calculate_distance (la j) 1 (la k) 1 = 6371 * (\<bar>la k - la j\<bar> * pi / 180)" .
    also have "\<dots> = \<bar>real k - real j\<bar> * pi / 800" unfolding e abs_mult by simp
    finally show ?thesis by (simp add: bin_distance_def m_def)
  qed
  have score: "weighted_score (la j, 1) (m k w) = 20 - \<bar>real k - real j\<bar> * pi / 800 * 5"
    if "j \<le> 3" "k \<le> 3" for j k w
    unfolding weighted_score_def dist [OF that] by (simp add: m_def)
  have pos: "(rb_latitude (m k w), rb_longitude (m k w)) = (la k, 1)" for k w
    by (simp add: m_def)
  have f1: "find_best (la 0, 1) [m 1 10, m 2 10, m 3 11] None = Some (m 1 10, 20 - pi / 800 * 5, pi / 800)"
    using find_best_first [of "[m 2 10, m 3 11]" "(la 0, 1)" "m 1 10"] pi_gt_zero
    by (simp add: score dist)
  have f2: "find_best (la 1, 1) [m 2 10, m 3 11] None = Some (m 2 10, 20 - pi / 800 * 5, pi / 800)"
    using find_best_first [of "[m 3 11]" "(la 1, 1)" "m 2 10"] pi_gt_zero
    by (simp add: score dist)
  have f3: "find_best (la 2, 1) [m 3 11] None = Some (m 3 11, 20 - pi / 800 * 5, pi / 800)"
    using find_best_first [of "[]" "(la 2, 1)" "m 3 11"]
    by (simp add: score dist)
  define s1 where "s1 = make_stop 1 (m 1 10) (pi / 800)"
  define s2 where "s2 = make_stop 2 (m 2 10) (pi / 800)"
  define s3 where "s3 = make_stop 3 (m 3 11) (pi / 800)"
  have "nearest_neighbor_loop (la 0, 1) [m 1 10, m 2 10, m 3 11] [] 0
          = nearest_neighbor_loop (la 1, 1) [m 2 10, m 3 11] [s1] (pi / 800)"
    using loop_step [OF _ f1, of "[]" 0] by (simp add: pos s1_def)
  also have "\<dots> = nearest_neighbor_loop (la 2, 1) [m 3 11] [s1, s2] (pi / 800 + pi / 800)"
    using loop_step [OF _ f2, of "[s1]" "pi / 800"] by (simp add: pos s2_def numeral_2_eq_2)
  also have "\<dots> = nearest_neighbor_loop (la 3, 1) [] [s1, s2, s3] (pi / 800 + pi / 800 + pi / 800)"
    using loop_step [OF _ f3, of "[s1, s2]" "pi / 800 + pi / 800"]
    by (simp add: pos s3_def numeral_3_eq_3)
  finally have l: "nearest_neighbor_loop (la 0, 1) [m 1 10, m 2 10, m 3 11] [] 0
                     = ([s1, s2, s3], 3 * pi / 800)"
    by simp
  have r_hop: "py_round (pi / 800) 2 = 0"
    using py_round_unique [of 0 "pi / 800"] pi_gt_zero pi_less_4 by simp
  have r_tot: "py_round (3 * pi / 800) 2 = 1 / 100"
    using py_round_unique [of 1 "3 * pi / 800"] pi_ge_two pi_less_4 by simp
  have r_avg: "py_round (31 / 3) 2 = 1033 / 100"
    using py_round_unique [of 1033 "31 / 3"] by simp
  have fields: "s_distance_from_previous s1 = 0" "s_distance_from_previous s2 = 0"
    "s_distance_from_previous s3 = 0"
    "s_waste_level s1 = 10" "s_waste_level s2 = 10" "s_waste_level s3 = 11"
    by (simp_all add: s1_def s2_def s3_def r_hop m_def)
  show ?thesis
    unfolding optimize_route_run [OF ne sp l] by (simp add: fields r_tot r_avg)
qed

end
